theory Spec2Isabelle
  imports Main "HOL-Library.Multiset"
begin

section \<open>The RSS news collector \<^verbatim>\<open>scripts/collect_rss.py\<close>\<close>

subsection \<open>Text\<close>

text \<open>
  A Python \<^verbatim>\<open>str\<close> is a sequence of Unicode code points: slicing, \<^verbatim>\<open>len\<close> and
  \<^verbatim>\<open>in\<close> count code points, and the script's own literals hold Japanese text. So a
  string of the model is a list of code points, the integers \<^verbatim>\<open>ord\<close> gives; \<open>ascii\<close>
  writes an ASCII literal.
\<close>

type_synonym str = "int list"

definition ascii :: "string \<Rightarrow> str" where
  "ascii s = map of_char s"

text \<open>
  \<^verbatim>\<open>str.lower()\<close>, as CPython 3.11 computes it from the case tables of Unicode 14.0.
  Every code point is replaced by its lower-case form, which is the code point itself
  unless the table \<open>LOWER\<close> lists it. An entry \<open>(lo, hi, step, delta)\<close> of that
  table says that the code points \<open>lo\<close>, \<open>lo + step\<close>, ... up to \<open>hi\<close> have the
  lower-case form \<open>delta\<close> above them; the entries are in ascending order of \<open>lo\<close>.
  Two code points are special. U+0130 becomes the two code points U+0069 U+0307. The
  capital sigma U+03A3 becomes the final sigma U+03C2 when it ends a word and the small
  sigma U+03C3 otherwise: it ends a word when the nearest code point before it that is
  not case-ignorable exists and is cased, and the nearest one after it that is not
  case-ignorable does not exist or is not cased. \<open>CASE_IGNORABLE\<close> lists the ranges of
  the case-ignorable code points, and \<open>CASED\<close> those of the cased code points that are
  not case-ignorable, the only ones whose case that rule asks for.
\<close>

definition LOWER :: "(int \<times> int \<times> int \<times> int) list" where
  "LOWER =
     [(65, 90, 1, 32), (192, 214, 1, 32), (216, 222, 1, 32), (256, 302, 2, 1),
      (306, 310, 2, 1), (313, 327, 2, 1), (330, 374, 2, 1), (376, 376, 1, - 121),
      (377, 381, 2, 1), (385, 385, 1, 210), (386, 388, 2, 1), (390, 390, 1, 206),
      (391, 391, 1, 1), (393, 394, 1, 205), (395, 395, 1, 1), (398, 398, 1, 79),
      (399, 399, 1, 202), (400, 400, 1, 203), (401, 401, 1, 1), (403, 403, 1, 205),
      (404, 404, 1, 207), (406, 406, 1, 211), (407, 407, 1, 209), (408, 408, 1, 1),
      (412, 412, 1, 211), (413, 413, 1, 213), (415, 415, 1, 214), (416, 420, 2, 1),
      (422, 422, 1, 218), (423, 423, 1, 1), (425, 425, 1, 218), (428, 428, 1, 1),
      (430, 430, 1, 218), (431, 431, 1, 1), (433, 434, 1, 217), (435, 437, 2, 1),
      (439, 439, 1, 219), (440, 440, 1, 1), (444, 444, 1, 1), (452, 452, 1, 2),
      (453, 453, 1, 1), (455, 455, 1, 2), (456, 456, 1, 1), (458, 458, 1, 2),
      (459, 475, 2, 1), (478, 494, 2, 1), (497, 497, 1, 2), (498, 500, 2, 1),
      (502, 502, 1, - 97), (503, 503, 1, - 56), (504, 542, 2, 1), (544, 544, 1, - 130),
      (546, 562, 2, 1), (570, 570, 1, 10795), (571, 571, 1, 1), (573, 573, 1, - 163),
      (574, 574, 1, 10792), (577, 577, 1, 1), (579, 579, 1, - 195), (580, 580, 1, 69),
      (581, 581, 1, 71), (582, 590, 2, 1), (880, 882, 2, 1), (886, 886, 1, 1),
      (895, 895, 1, 116), (902, 902, 1, 38), (904, 906, 1, 37), (908, 908, 1, 64),
      (910, 911, 1, 63), (913, 929, 1, 32), (932, 939, 1, 32), (975, 975, 1, 8),
      (984, 1006, 2, 1), (1012, 1012, 1, - 60), (1015, 1015, 1, 1), (1017, 1017, 1, - 7),
      (1018, 1018, 1, 1), (1021, 1023, 1, - 130), (1024, 1039, 1, 80), (1040, 1071, 1, 32),
      (1120, 1152, 2, 1), (1162, 1214, 2, 1), (1216, 1216, 1, 15), (1217, 1229, 2, 1),
      (1232, 1326, 2, 1), (1329, 1366, 1, 48), (4256, 4293, 1, 7264), (4295, 4295, 1, 7264),
      (4301, 4301, 1, 7264), (5024, 5103, 1, 38864), (5104, 5109, 1, 8),
      (7312, 7354, 1, - 3008), (7357, 7359, 1, - 3008), (7680, 7828, 2, 1),
      (7838, 7838, 1, - 7615), (7840, 7934, 2, 1), (7944, 7951, 1, - 8),
      (7960, 7965, 1, - 8), (7976, 7983, 1, - 8), (7992, 7999, 1, - 8), (8008, 8013, 1, - 8),
      (8025, 8031, 2, - 8), (8040, 8047, 1, - 8), (8072, 8079, 1, - 8), (8088, 8095, 1, - 8),
      (8104, 8111, 1, - 8), (8120, 8121, 1, - 8), (8122, 8123, 1, - 74),
      (8124, 8124, 1, - 9), (8136, 8139, 1, - 86), (8140, 8140, 1, - 9),
      (8152, 8153, 1, - 8), (8154, 8155, 1, - 100), (8168, 8169, 1, - 8),
      (8170, 8171, 1, - 112), (8172, 8172, 1, - 7), (8184, 8185, 1, - 128),
      (8186, 8187, 1, - 126), (8188, 8188, 1, - 9), (8486, 8486, 1, - 7517),
      (8490, 8490, 1, - 8383), (8491, 8491, 1, - 8262), (8498, 8498, 1, 28),
      (8544, 8559, 1, 16), (8579, 8579, 1, 1), (9398, 9423, 1, 26), (11264, 11311, 1, 48),
      (11360, 11360, 1, 1), (11362, 11362, 1, - 10743), (11363, 11363, 1, - 3814),
      (11364, 11364, 1, - 10727), (11367, 11371, 2, 1), (11373, 11373, 1, - 10780),
      (11374, 11374, 1, - 10749), (11375, 11375, 1, - 10783), (11376, 11376, 1, - 10782),
      (11378, 11378, 1, 1), (11381, 11381, 1, 1), (11390, 11391, 1, - 10815),
      (11392, 11490, 2, 1), (11499, 11501, 2, 1), (11506, 11506, 1, 1), (42560, 42604, 2, 1),
      (42624, 42650, 2, 1), (42786, 42798, 2, 1), (42802, 42862, 2, 1), (42873, 42875, 2, 1),
      (42877, 42877, 1, - 35332), (42878, 42886, 2, 1), (42891, 42891, 1, 1),
      (42893, 42893, 1, - 42280), (42896, 42898, 2, 1), (42902, 42920, 2, 1),
      (42922, 42922, 1, - 42308), (42923, 42923, 1, - 42319), (42924, 42924, 1, - 42315),
      (42925, 42925, 1, - 42305), (42926, 42926, 1, - 42308), (42928, 42928, 1, - 42258),
      (42929, 42929, 1, - 42282), (42930, 42930, 1, - 42261), (42931, 42931, 1, 928),
      (42932, 42946, 2, 1), (42948, 42948, 1, - 48), (42949, 42949, 1, - 42307),
      (42950, 42950, 1, - 35384), (42951, 42953, 2, 1), (42960, 42960, 1, 1),
      (42966, 42968, 2, 1), (42997, 42997, 1, 1), (65313, 65338, 1, 32),
      (66560, 66599, 1, 40), (66736, 66771, 1, 40), (66928, 66964, 2, 39),
      (66929, 66937, 2, 39), (66941, 66953, 2, 39), (66957, 66961, 2, 39),
      (66965, 66965, 1, 39), (68736, 68786, 1, 64), (71840, 71871, 1, 32),
      (93760, 93791, 1, 32), (125184, 125217, 1, 34)]"

definition CASE_IGNORABLE :: "(int \<times> int) list" where
  "CASE_IGNORABLE =
     [(39, 39), (46, 46), (58, 58), (94, 94), (96, 96), (168, 168), (173, 173), (175, 175),
      (180, 180), (183, 184), (688, 879), (884, 885), (890, 890), (900, 901), (903, 903),
      (1155, 1161), (1369, 1369), (1375, 1375), (1425, 1469), (1471, 1471), (1473, 1474),
      (1476, 1477), (1479, 1479), (1524, 1524), (1536, 1541), (1552, 1562), (1564, 1564),
      (1600, 1600), (1611, 1631), (1648, 1648), (1750, 1757), (1759, 1768), (1770, 1773),
      (1807, 1807), (1809, 1809), (1840, 1866), (1958, 1968), (2027, 2037), (2042, 2042),
      (2045, 2045), (2070, 2093), (2137, 2139), (2184, 2184), (2192, 2193), (2200, 2207),
      (2249, 2306), (2362, 2362), (2364, 2364), (2369, 2376), (2381, 2381), (2385, 2391),
      (2402, 2403), (2417, 2417), (2433, 2433), (2492, 2492), (2497, 2500), (2509, 2509),
      (2530, 2531), (2558, 2558), (2561, 2562), (2620, 2620), (2625, 2626), (2631, 2632),
      (2635, 2637), (2641, 2641), (2672, 2673), (2677, 2677), (2689, 2690), (2748, 2748),
      (2753, 2757), (2759, 2760), (2765, 2765), (2786, 2787), (2810, 2815), (2817, 2817),
      (2876, 2876), (2879, 2879), (2881, 2884), (2893, 2893), (2901, 2902), (2914, 2915),
      (2946, 2946), (3008, 3008), (3021, 3021), (3072, 3072), (3076, 3076), (3132, 3132),
      (3134, 3136), (3142, 3144), (3146, 3149), (3157, 3158), (3170, 3171), (3201, 3201),
      (3260, 3260), (3263, 3263), (3270, 3270), (3276, 3277), (3298, 3299), (3328, 3329),
      (3387, 3388), (3393, 3396), (3405, 3405), (3426, 3427), (3457, 3457), (3530, 3530),
      (3538, 3540), (3542, 3542), (3633, 3633), (3636, 3642), (3654, 3662), (3761, 3761),
      (3764, 3772), (3782, 3782), (3784, 3789), (3864, 3865), (3893, 3893), (3895, 3895),
      (3897, 3897), (3953, 3966), (3968, 3972), (3974, 3975), (3981, 3991), (3993, 4028),
      (4038, 4038), (4141, 4144), (4146, 4151), (4153, 4154), (4157, 4158), (4184, 4185),
      (4190, 4192), (4209, 4212), (4226, 4226), (4229, 4230), (4237, 4237), (4253, 4253),
      (4348, 4348), (4957, 4959), (5906, 5908), (5938, 5939), (5970, 5971), (6002, 6003),
      (6068, 6069), (6071, 6077), (6086, 6086), (6089, 6099), (6103, 6103), (6109, 6109),
      (6155, 6159), (6211, 6211), (6277, 6278), (6313, 6313), (6432, 6434), (6439, 6440),
      (6450, 6450), (6457, 6459), (6679, 6680), (6683, 6683), (6742, 6742), (6744, 6750),
      (6752, 6752), (6754, 6754), (6757, 6764), (6771, 6780), (6783, 6783), (6823, 6823),
      (6832, 6862), (6912, 6915), (6964, 6964), (6966, 6970), (6972, 6972), (6978, 6978),
      (7019, 7027), (7040, 7041), (7074, 7077), (7080, 7081), (7083, 7085), (7142, 7142),
      (7144, 7145), (7149, 7149), (7151, 7153), (7212, 7219), (7222, 7223), (7288, 7293),
      (7376, 7378), (7380, 7392), (7394, 7400), (7405, 7405), (7412, 7412), (7416, 7417),
      (7468, 7530), (7544, 7544), (7579, 7679), (8125, 8125), (8127, 8129), (8141, 8143),
      (8157, 8159), (8173, 8175), (8189, 8190), (8203, 8207), (8216, 8217), (8228, 8228),
      (8231, 8231), (8234, 8238), (8288, 8292), (8294, 8303), (8305, 8305), (8319, 8319),
      (8336, 8348), (8400, 8432), (11388, 11389), (11503, 11505), (11631, 11631),
      (11647, 11647), (11744, 11775), (11823, 11823), (12293, 12293), (12330, 12333),
      (12337, 12341), (12347, 12347), (12441, 12446), (12540, 12542), (40981, 40981),
      (42232, 42237), (42508, 42508), (42607, 42610), (42612, 42621), (42623, 42623),
      (42652, 42655), (42736, 42737), (42752, 42785), (42864, 42864), (42888, 42890),
      (42994, 42996), (43000, 43001), (43010, 43010), (43014, 43014), (43019, 43019),
      (43045, 43046), (43052, 43052), (43204, 43205), (43232, 43249), (43263, 43263),
      (43302, 43309), (43335, 43345), (43392, 43394), (43443, 43443), (43446, 43449),
      (43452, 43453), (43471, 43471), (43493, 43494), (43561, 43566), (43569, 43570),
      (43573, 43574), (43587, 43587), (43596, 43596), (43632, 43632), (43644, 43644),
      (43696, 43696), (43698, 43700), (43703, 43704), (43710, 43711), (43713, 43713),
      (43741, 43741), (43756, 43757), (43763, 43764), (43766, 43766), (43867, 43871),
      (43881, 43883), (44005, 44005), (44008, 44008), (44013, 44013), (64286, 64286),
      (64434, 64450), (65024, 65039), (65043, 65043), (65056, 65071), (65106, 65106),
      (65109, 65109), (65279, 65279), (65287, 65287), (65294, 65294), (65306, 65306),
      (65342, 65342), (65344, 65344), (65392, 65392), (65438, 65439), (65507, 65507),
      (65529, 65531), (66045, 66045), (66272, 66272), (66422, 66426), (67456, 67461),
      (67463, 67504), (67506, 67514), (68097, 68099), (68101, 68102), (68108, 68111),
      (68152, 68154), (68159, 68159), (68325, 68326), (68900, 68903), (69291, 69292),
      (69446, 69456), (69506, 69509), (69633, 69633), (69688, 69702), (69744, 69744),
      (69747, 69748), (69759, 69761), (69811, 69814), (69817, 69818), (69821, 69821),
      (69826, 69826), (69837, 69837), (69888, 69890), (69927, 69931), (69933, 69940),
      (70003, 70003), (70016, 70017), (70070, 70078), (70089, 70092), (70095, 70095),
      (70191, 70193), (70196, 70196), (70198, 70199), (70206, 70206), (70367, 70367),
      (70371, 70378), (70400, 70401), (70459, 70460), (70464, 70464), (70502, 70508),
      (70512, 70516), (70712, 70719), (70722, 70724), (70726, 70726), (70750, 70750),
      (70835, 70840), (70842, 70842), (70847, 70848), (70850, 70851), (71090, 71093),
      (71100, 71101), (71103, 71104), (71132, 71133), (71219, 71226), (71229, 71229),
      (71231, 71232), (71339, 71339), (71341, 71341), (71344, 71349), (71351, 71351),
      (71453, 71455), (71458, 71461), (71463, 71467), (71727, 71735), (71737, 71738),
      (71995, 71996), (71998, 71998), (72003, 72003), (72148, 72151), (72154, 72155),
      (72160, 72160), (72193, 72202), (72243, 72248), (72251, 72254), (72263, 72263),
      (72273, 72278), (72281, 72283), (72330, 72342), (72344, 72345), (72752, 72758),
      (72760, 72765), (72767, 72767), (72850, 72871), (72874, 72880), (72882, 72883),
      (72885, 72886), (73009, 73014), (73018, 73018), (73020, 73021), (73023, 73029),
      (73031, 73031), (73104, 73105), (73109, 73109), (73111, 73111), (73459, 73460),
      (78896, 78904), (92912, 92916), (92976, 92982), (92992, 92995), (94031, 94031),
      (94095, 94111), (94176, 94177), (94179, 94180), (110576, 110579), (110581, 110587),
      (110589, 110590), (113821, 113822), (113824, 113827), (118528, 118573),
      (118576, 118598), (119143, 119145), (119155, 119170), (119173, 119179),
      (119210, 119213), (119362, 119364), (121344, 121398), (121403, 121452),
      (121461, 121461), (121476, 121476), (121499, 121503), (121505, 121519),
      (122880, 122886), (122888, 122904), (122907, 122913), (122915, 122916),
      (122918, 122922), (123184, 123197), (123566, 123566), (123628, 123631),
      (125136, 125142), (125252, 125259), (127995, 127999), (917505, 917505),
      (917536, 917631), (917760, 917999)]"

definition CASED :: "(int \<times> int) list" where
  "CASED =
     [(65, 90), (97, 122), (170, 170), (181, 181), (186, 186), (192, 214), (216, 246),
      (248, 442), (444, 447), (452, 659), (661, 687), (880, 883), (886, 887), (891, 893),
      (895, 895), (902, 902), (904, 906), (908, 908), (910, 929), (931, 1013), (1015, 1153),
      (1162, 1327), (1329, 1366), (1376, 1416), (4256, 4293), (4295, 4295), (4301, 4301),
      (4304, 4346), (4349, 4351), (5024, 5109), (5112, 5117), (7296, 7304), (7312, 7354),
      (7357, 7359), (7424, 7467), (7531, 7543), (7545, 7578), (7680, 7957), (7960, 7965),
      (7968, 8005), (8008, 8013), (8016, 8023), (8025, 8025), (8027, 8027), (8029, 8029),
      (8031, 8061), (8064, 8116), (8118, 8124), (8126, 8126), (8130, 8132), (8134, 8140),
      (8144, 8147), (8150, 8155), (8160, 8172), (8178, 8180), (8182, 8188), (8450, 8450),
      (8455, 8455), (8458, 8467), (8469, 8469), (8473, 8477), (8484, 8484), (8486, 8486),
      (8488, 8488), (8490, 8493), (8495, 8500), (8505, 8505), (8508, 8511), (8517, 8521),
      (8526, 8526), (8544, 8575), (8579, 8580), (9398, 9449), (11264, 11387), (11390, 11492),
      (11499, 11502), (11506, 11507), (11520, 11557), (11559, 11559), (11565, 11565),
      (42560, 42605), (42624, 42651), (42786, 42863), (42865, 42887), (42891, 42894),
      (42896, 42954), (42960, 42961), (42963, 42963), (42965, 42969), (42997, 42998),
      (43002, 43002), (43824, 43866), (43872, 43880), (43888, 43967), (64256, 64262),
      (64275, 64279), (65313, 65338), (65345, 65370), (66560, 66639), (66736, 66771),
      (66776, 66811), (66928, 66938), (66940, 66954), (66956, 66962), (66964, 66965),
      (66967, 66977), (66979, 66993), (66995, 67001), (67003, 67004), (68736, 68786),
      (68800, 68850), (71840, 71903), (93760, 93823), (119808, 119892), (119894, 119964),
      (119966, 119967), (119970, 119970), (119973, 119974), (119977, 119980),
      (119982, 119993), (119995, 119995), (119997, 120003), (120005, 120069),
      (120071, 120074), (120077, 120084), (120086, 120092), (120094, 120121),
      (120123, 120126), (120128, 120132), (120134, 120134), (120138, 120144),
      (120146, 120485), (120488, 120512), (120514, 120538), (120540, 120570),
      (120572, 120596), (120598, 120628), (120630, 120654), (120656, 120686),
      (120688, 120712), (120714, 120744), (120746, 120770), (120772, 120779),
      (122624, 122633), (122635, 122654), (125184, 125251), (127280, 127305),
      (127312, 127337), (127344, 127369)]"

fun to_lower :: "(int \<times> int \<times> int \<times> int) list \<Rightarrow> int \<Rightarrow> int" where
  "to_lower [] c = c"
| "to_lower ((lo, hi, step, delta) # table) c =
     (if c < lo then c
      else if c \<le> hi \<and> (c - lo) mod step = 0 then c + delta
      else to_lower table c)"

fun in_ranges :: "(int \<times> int) list \<Rightarrow> int \<Rightarrow> bool" where
  "in_ranges [] c = False"
| "in_ranges ((lo, hi) # ranges) c =
     (if c < lo then False else if c \<le> hi then True else in_ranges ranges c)"

definition to_lower_full :: "int \<Rightarrow> str" where
  "to_lower_full c = (if c = 304 then [105, 775] else [to_lower LOWER c])"

definition case_ignorable :: "int \<Rightarrow> bool" where
  "case_ignorable c = in_ranges CASE_IGNORABLE c"

definition cased :: "int \<Rightarrow> bool" where
  "cased c = in_ranges CASED c"

text \<open>
  The test for the final sigma: \<open>before\<close> holds the code points before the sigma, the
  nearest first, and \<open>after\<close> those after it.
\<close>

definition final_sigma :: "str \<Rightarrow> str \<Rightarrow> bool" where
  "final_sigma before after =
     ((case dropWhile case_ignorable before of [] \<Rightarrow> False | c # _ \<Rightarrow> cased c)
      \<and> (case dropWhile case_ignorable after of [] \<Rightarrow> True | c # _ \<Rightarrow> \<not> cased c))"

fun lower_from :: "str \<Rightarrow> str \<Rightarrow> str" where
  "lower_from before [] = []"
| "lower_from before (c # after) =
     (if c = 931 then [if final_sigma before after then 962 else 963]
      else to_lower_full c)
     @ lower_from (c # before) after"

definition lower :: "str \<Rightarrow> str" where
  "lower text = lower_from [] text"

text \<open>\<^verbatim>\<open>text.startswith(p)\<close> and the substring test \<^verbatim>\<open>sub in text\<close>.\<close>

fun startswith :: "'a list \<Rightarrow> 'a list \<Rightarrow> bool" where
  "startswith xs [] = True"
| "startswith [] (p # ps) = False"
| "startswith (x # xs) (p # ps) = (x = p \<and> startswith xs ps)"

fun contains :: "'a list \<Rightarrow> 'a list \<Rightarrow> bool" where
  "contains [] sub = (sub = [])"
| "contains (x # xs) sub = (startswith (x # xs) sub \<or> contains xs sub)"

subsection \<open>Dates and times\<close>

text \<open>
  The part of Python's \<^verbatim>\<open>datetime\<close> library the script calls. A \<open>datetime\<close> is an
  aware one (\<^verbatim>\<open>main\<close> builds none other): \<open>dt_local\<close> counts the microseconds of its
  wall clock since 0001-01-01 00:00:00 and \<open>dt_utcoffset\<close> is the offset of its time zone
  from UTC, in microseconds. The library keeps the wall clock within the years 1..9999 and
  raises \<^verbatim>\<open>OverflowError\<close> when arithmetic leaves them.
\<close>

datatype exn = TypeError | ValueError | OverflowError

record datetime =
  dt_local :: int
  dt_utcoffset :: int

definition max_us :: int where
  "max_us = 3652059 * 86400000000"

definition is_leap :: "int \<Rightarrow> bool" where
  "is_leap year = (year mod 4 = 0 \<and> (year mod 100 \<noteq> 0 \<or> year mod 400 = 0))"

definition days_before_year :: "int \<Rightarrow> int" where
  "days_before_year year =
     (let y = year - 1 in y * 365 + y div 4 - y div 100 + y div 400)"

definition DAYS_IN_MONTH :: "int list" where
  "DAYS_IN_MONTH = [- 1, 31, 28, 31, 30, 31, 30, 31, 31, 30, 31, 30, 31]"

definition DAYS_BEFORE_MONTH :: "int list" where
  "DAYS_BEFORE_MONTH = [- 1, 0, 31, 59, 90, 120, 151, 181, 212, 243, 273, 304, 334]"

definition days_in_month :: "int \<Rightarrow> int \<Rightarrow> int" where
  "days_in_month year month =
     (if month = 2 \<and> is_leap year then 29 else DAYS_IN_MONTH ! nat month)"

definition days_before_month :: "int \<Rightarrow> int \<Rightarrow> int" where
  "days_before_month year month =
     DAYS_BEFORE_MONTH ! nat month + (if month > 2 \<and> is_leap year then 1 else 0)"

definition ymd2ord :: "int \<Rightarrow> int \<Rightarrow> int \<Rightarrow> int" where
  "ymd2ord year month day = days_before_year year + days_before_month year month + day"

text \<open>\<^verbatim>\<open>_ord2ymd\<close>: the date of a day number, 1 being 0001-01-01.\<close>

definition ord2ymd :: "int \<Rightarrow> int \<times> int \<times> int" where
  "ord2ymd ordinal =
     (let n = ordinal - 1;
          n400 = n div 146097; n = n mod 146097;
          n100 = n div 36524; n = n mod 36524;
          n4 = n div 1461; n = n mod 1461;
          n1 = n div 365; n = n mod 365;
          year = n400 * 400 + 1 + n100 * 100 + n4 * 4 + n1
      in if n1 = 4 \<or> n100 = 4 then (year - 1, 12, 31)
         else
           let leapyear = (n1 = 3 \<and> (n4 \<noteq> 24 \<or> n100 = 3));
               month = (n + 50) div 32;
               preceding = DAYS_BEFORE_MONTH ! nat month
                             + (if month > 2 \<and> leapyear then 1 else 0)
           in if preceding > n
              then let month = month - 1;
                       preceding = preceding
                         - (DAYS_IN_MONTH ! nat month
                              + (if month = 2 \<and> leapyear then 1 else 0))
                   in (year, month, n - preceding + 1)
              else (year, month, n - preceding + 1))"

definition c_int :: "int \<Rightarrow> bool" where
  "c_int i = (- 2147483648 \<le> i \<and> i \<le> 2147483647)"

text \<open>
  \<^verbatim>\<open>datetime(*args, tzinfo=timezone.utc)\<close> for at most six integers. An argument that
  does not fit a C \<^verbatim>\<open>int\<close> raises \<^verbatim>\<open>OverflowError\<close> while the arguments are read,
  fewer than three arguments raise \<^verbatim>\<open>TypeError\<close>, a field out of range raises
  \<^verbatim>\<open>ValueError\<close>.
\<close>

definition datetime_utc :: "int list \<Rightarrow> exn + datetime" where
  "datetime_utc args =
     (if \<not> list_all c_int args then Inl OverflowError
      else case args of
        year # month # day # rest \<Rightarrow>
          (let hour = (case rest of h # _ \<Rightarrow> h | _ \<Rightarrow> 0);
               minute = (case rest of _ # m # _ \<Rightarrow> m | _ \<Rightarrow> 0);
               second = (case rest of _ # _ # s # _ \<Rightarrow> s | _ \<Rightarrow> 0)
           in if year < 1 \<or> 9999 < year \<or> month < 1 \<or> 12 < month
                 \<or> day < 1 \<or> days_in_month year month < day
                 \<or> hour < 0 \<or> 23 < hour \<or> minute < 0 \<or> 59 < minute
                 \<or> second < 0 \<or> 59 < second
              then Inl ValueError
              else Inr \<lparr>dt_local =
                          ((ymd2ord year month day - 1) * 86400
                             + hour * 3600 + minute * 60 + second) * 1000000,
                        dt_utcoffset = 0\<rparr>)
      | _ \<Rightarrow> Inl TypeError)"

text \<open>
  \<^verbatim>\<open>timedelta(hours=h)\<close> for an integer \<open>h\<close>, in microseconds: the library refuses more
  than 999999999 days either way.
\<close>

definition timedelta_hours :: "int \<Rightarrow> exn + int" where
  "timedelta_hours h =
     (let us = h * 3600000000; days = us div 86400000000
      in if days < - 999999999 \<or> 999999999 < days then Inl OverflowError else Inr us)"

text \<open>\<^verbatim>\<open>d - delta\<close>: the wall clock moves, the time zone stays.\<close>

definition datetime_sub :: "datetime \<Rightarrow> int \<Rightarrow> exn + datetime" where
  "datetime_sub d delta =
     (let l = dt_local d - delta
      in if l < 0 \<or> max_us \<le> l then Inl OverflowError else Inr (d\<lparr>dt_local := l\<rparr>))"

text \<open>Two aware datetimes compare by the instants they denote.\<close>

definition instant :: "datetime \<Rightarrow> int" where
  "instant d = dt_local d - dt_utcoffset d"

definition datetime_lt :: "datetime \<Rightarrow> datetime \<Rightarrow> bool" where
  "datetime_lt a b = (instant a < instant b)"

text \<open>\<^verbatim>\<open>JST = timezone(timedelta(hours=9))\<close> and \<^verbatim>\<open>d.astimezone(JST)\<close>.\<close>

definition JST :: int where
  "JST = 9 * 3600000000"

definition astimezone_JST :: "datetime \<Rightarrow> exn + datetime" where
  "astimezone_JST d =
     (let utc = dt_local d - dt_utcoffset d
      in if utc < 0 \<or> max_us \<le> utc then Inl OverflowError
         else let l = utc + JST
              in if l < 0 \<or> max_us \<le> l then Inl OverflowError
                 else Inr \<lparr>dt_local = l, dt_utcoffset = JST\<rparr>)"

text \<open>The fields of the wall clock, and \<^verbatim>\<open>d.weekday()\<close> (Monday is 0).\<close>

definition dt_date :: "datetime \<Rightarrow> int \<times> int \<times> int" where
  "dt_date d = ord2ymd (dt_local d div 86400000000 + 1)"

definition dt_hour :: "datetime \<Rightarrow> int" where
  "dt_hour d = (dt_local d div 3600000000) mod 24"

definition dt_minute :: "datetime \<Rightarrow> int" where
  "dt_minute d = (dt_local d div 60000000) mod 60"

definition weekday :: "datetime \<Rightarrow> int" where
  "weekday d = (dt_local d div 86400000000 + 1 + 6) mod 7"

text \<open>Decimal numerals: \<^verbatim>\<open>str(n)\<close> and the two-digit fields of \<^verbatim>\<open>strftime\<close>.\<close>

fun str_of_nat :: "nat \<Rightarrow> str" where
  "str_of_nat n =
     (if n < 10 then [48 + int n] else str_of_nat (n div 10) @ [48 + int (n mod 10)])"

declare str_of_nat.simps [simp del]

definition pad2 :: "int \<Rightarrow> str" where
  "pad2 i = (if i < 10 then [48] @ str_of_nat (nat i) else str_of_nat (nat i))"

text \<open>
  \<^verbatim>\<open>d.strftime("%Y-%m-%d %H:%M")\<close>. The year is printed as CPython on glibc prints it,
  without leading zeros.
\<close>

definition strftime_ymd_hm :: "datetime \<Rightarrow> str" where
  "strftime_ymd_hm d =
     (case dt_date d of (y, m, dd) \<Rightarrow>
        str_of_nat (nat y) @ ascii ''-'' @ pad2 m @ ascii ''-'' @ pad2 dd @ ascii '' ''
          @ pad2 (dt_hour d) @ ascii '':'' @ pad2 (dt_minute d))"

subsection \<open>Feed entries\<close>

text \<open>
  What the script reads of a \<^verbatim>\<open>feedparser\<close> entry, each through \<^verbatim>\<open>getattr\<close> with a
  default: \<open>None\<close> is an attribute the entry lacks. The two parsed times are tuples of
  integers (a \<^verbatim>\<open>time.struct_time\<close>), or Python's \<^verbatim>\<open>None\<close>, which is \<open>None\<close> here too.
\<close>

record entry =
  e_link :: "str option"
  e_title :: "str option"
  e_summary :: "str option"
  e_published_parsed :: "int list option"
  e_updated_parsed :: "int list option"

definition getattr :: "'a option \<Rightarrow> 'a \<Rightarrow> 'a" where
  "getattr field dflt = (case field of None \<Rightarrow> dflt | Some v \<Rightarrow> v)"

text \<open>
  The loop of \<^verbatim>\<open>parse_entry_date\<close> over the two attributes: an absent or empty value
  is skipped, \<^verbatim>\<open>ValueError\<close> and \<^verbatim>\<open>TypeError\<close> are caught and the loop goes on,
  any other exception leaves the function.
\<close>

fun parse_attrs :: "int list option list \<Rightarrow> exn + datetime option" where
  "parse_attrs [] = Inr None"
| "parse_attrs (None # attrs) = parse_attrs attrs"
| "parse_attrs (Some parsed # attrs) =
     (if parsed = [] then parse_attrs attrs
      else case datetime_utc (take 6 parsed) of
             Inr d \<Rightarrow> Inr (Some d)
           | Inl ValueError \<Rightarrow> parse_attrs attrs
           | Inl TypeError \<Rightarrow> parse_attrs attrs
           | Inl OverflowError \<Rightarrow> Inl OverflowError)"

definition parse_entry_date :: "entry \<Rightarrow> exn + datetime option" where
  "parse_entry_date entry = parse_attrs [e_published_parsed entry, e_updated_parsed entry]"

subsection \<open>Keyword filters\<close>

text \<open>
  \<^verbatim>\<open>any(kw.lower() in lower_text for kw in keywords)\<close>: \<^verbatim>\<open>any\<close> of no element is
  \<^verbatim>\<open>False\<close>.
\<close>

definition matches_keywords :: "str \<Rightarrow> str list \<Rightarrow> bool" where
  "matches_keywords text keywords =
     (let lower_text = lower text
      in list_ex (\<lambda>kw. contains lower_text (lower kw)) keywords)"

definition matches_exclude_keywords :: "str \<Rightarrow> str list \<Rightarrow> bool" where
  "matches_exclude_keywords text exclude_keywords =
     (if exclude_keywords = [] then False
      else let lower_text = lower text
           in list_ex (\<lambda>kw. contains lower_text (lower kw)) exclude_keywords)"

subsection \<open>Fetching one feed\<close>

text \<open>
  A feed of the configuration: \<^verbatim>\<open>name\<close> and \<^verbatim>\<open>url\<close> are read with
  \<^verbatim>\<open>feed_config["..."]\<close>, the other two keys with \<^verbatim>\<open>.get\<close> and a default.
\<close>

record feed_config =
  fc_name :: str
  fc_url :: str
  fc_category :: "str option"
  fc_language :: "str option"

text \<open>
  What happens inside the \<^verbatim>\<open>try\<close> block of \<^verbatim>\<open>fetch_single_feed\<close>, as the network
  and \<^verbatim>\<open>feedparser.parse\<close> decide it: an \<^verbatim>\<open>Exception\<close> is raised, and \<open>Raised\<close>
  carries its \<^verbatim>\<open>str(e)\<close>; or the call returns, and \<open>Parsed\<close> carries \<^verbatim>\<open>bozo\<close>, the
  text of \<^verbatim>\<open>bozo_exception\<close> and \<^verbatim>\<open>entries\<close>.
\<close>

datatype parse_outcome = Raised str | Parsed bool str "entry list"

definition fetch_single_feed ::
  "feed_config \<Rightarrow> parse_outcome \<Rightarrow> str \<times> entry list \<times> str option" where
  "fetch_single_feed feed_config outcome =
     (let name = fc_name feed_config
      in case outcome of
           Parsed bozo bozo_exception entries \<Rightarrow>
             if bozo \<and> entries = []
             then (name, [], Some (ascii ''Parse error: '' @ bozo_exception))
             else (name, entries, None)
         | Raised e \<Rightarrow> (name, [], Some e))"

subsection \<open>Cleaning text\<close>

text \<open>
  The code points \<^verbatim>\<open>\s\<close> matches in a \<^verbatim>\<open>str\<close> pattern, which are those
  \<^verbatim>\<open>str.strip()\<close> removes.
\<close>

definition isspace :: "int \<Rightarrow> bool" where
  "isspace c =
     ((9 \<le> c \<and> c \<le> 13) \<or> (28 \<le> c \<and> c \<le> 32) \<or> c = 133 \<or> c = 160 \<or> c = 5760
        \<or> (8192 \<le> c \<and> c \<le> 8202) \<or> c = 8232 \<or> c = 8233 \<or> c = 8239 \<or> c = 8287
        \<or> c = 12288)"

text \<open>
  \<^verbatim>\<open>re.sub(r"<[^>]+>", "", text)\<close>: scanning from the left, a \<^verbatim>\<open><\<close> followed by at
  least one code point other than \<^verbatim>\<open>>\<close> and then a \<^verbatim>\<open>>\<close> is removed up to that
  \<^verbatim>\<open>>\<close>; any other code point is kept.
\<close>

function strip_tags :: "str \<Rightarrow> str" where
  "strip_tags [] = []"
| "strip_tags (c # cs) =
     (if c = 60 \<and> takeWhile (\<lambda>x. x \<noteq> 62) cs \<noteq> [] \<and> dropWhile (\<lambda>x. x \<noteq> 62) cs \<noteq> []
      then strip_tags (tl (dropWhile (\<lambda>x. x \<noteq> 62) cs))
      else c # strip_tags cs)"
  by pat_completeness auto
termination
proof (relation "measure length")
  fix c :: int and cs :: "int list"
  have "length (tl (dropWhile (\<lambda>x. x \<noteq> 62) cs)) \<le> length cs"
    using length_dropWhile_le [of "\<lambda>x. x \<noteq> 62" cs] by simp
  then show "(tl (dropWhile (\<lambda>x. x \<noteq> 62) cs), c # cs) \<in> measure length" by simp
qed simp_all

text \<open>\<^verbatim>\<open>re.sub(r"\s+", " ", text)\<close> and \<^verbatim>\<open>.strip()\<close>.\<close>

function collapse_ws :: "str \<Rightarrow> str" where
  "collapse_ws [] = []"
| "collapse_ws (c # cs) =
     (if isspace c then 32 # collapse_ws (dropWhile isspace cs) else c # collapse_ws cs)"
  by pat_completeness auto
termination
proof (relation "measure length")
  fix c :: int and cs :: "int list"
  show "(dropWhile isspace cs, c # cs) \<in> measure length"
    using length_dropWhile_le [of isspace cs] by simp
qed simp_all

definition strip :: "str \<Rightarrow> str" where
  "strip text = rev (dropWhile isspace (rev (dropWhile isspace text)))"

definition clean_text :: "str \<Rightarrow> str" where
  "clean_text text = strip (collapse_ws (strip_tags text))"

subsection \<open>Collecting\<close>

text \<open>
  The configuration is a dictionary read with \<^verbatim>\<open>config.get(key, default)\<close>: \<open>None\<close> is
  a key the file does not have.
\<close>

record config =
  cfg_feeds :: "feed_config list option"
  cfg_keywords :: "str list option"
  cfg_exclude_keywords :: "str list option"
  cfg_fetch_hours :: "int option"

record article =
  a_title :: str
  a_url :: str
  a_source :: str
  a_category :: str
  a_language :: str
  a_published :: str
  a_summary :: str

record fetch_error =
  err_name :: str
  err_error :: str

text \<open>The three variables the loops of \<^verbatim>\<open>collect_articles\<close> update.\<close>

record collect_state =
  articles :: "article list"
  errors :: "fetch_error list"
  seen_urls :: "str set"

text \<open>
  The pieces of the loop over the entries of one feed: the test of line 128, where a
  datetime is always true and \<^verbatim>\<open>None\<close> is false; the text the keywords are looked up
  in; the \<^verbatim>\<open>published\<close> field, whose literal for an unknown time is U+4E0D U+660E;
  and the dictionary of an accepted entry.
\<close>

definition too_old :: "datetime option \<Rightarrow> datetime \<Rightarrow> bool" where
  "too_old pub_date cutoff =
     (case pub_date of None \<Rightarrow> False | Some d \<Rightarrow> datetime_lt d cutoff)"

definition combined_text :: "entry \<Rightarrow> str" where
  "combined_text entry =
     (let title = getattr (e_title entry) []; summary = getattr (e_summary entry) []
      in title @ ascii '' '' @ summary)"

definition published_text :: "datetime option \<Rightarrow> exn + str" where
  "published_text pub_date =
     (case pub_date of
        None \<Rightarrow> Inr [19981, 26126]
      | Some d \<Rightarrow>
          (case astimezone_JST d of Inl x \<Rightarrow> Inl x | Inr j \<Rightarrow> Inr (strftime_ymd_hm j)))"

definition build_article :: "feed_config \<Rightarrow> str \<Rightarrow> entry \<Rightarrow> str \<Rightarrow> article" where
  "build_article feed_config name entry published =
     \<lparr>a_title = clean_text (getattr (e_title entry) []),
      a_url = getattr (e_link entry) [],
      a_source = name,
      a_category = getattr (fc_category feed_config) (ascii ''other''),
      a_language = getattr (fc_language feed_config) (ascii ''en''),
      a_published = published,
      a_summary = take 200 (clean_text (getattr (e_summary entry) []))\<rparr>"

text \<open>
  The body of that loop. Each \<^verbatim>\<open>continue\<close> returns the state as it is; an exception
  of the library (\<open>Inl\<close>) leaves \<^verbatim>\<open>collect_articles\<close>.
\<close>

definition process_entry ::
  "datetime \<Rightarrow> str list \<Rightarrow> str list \<Rightarrow> feed_config \<Rightarrow> str \<Rightarrow> entry
     \<Rightarrow> collect_state \<Rightarrow> exn + collect_state" where
  "process_entry cutoff keywords exclude_keywords feed_config name entry st =
     (let url = getattr (e_link entry) []
      in if url = [] \<or> url \<in> seen_urls st then Inr st
         else case parse_entry_date entry of
           Inl x \<Rightarrow> Inl x
         | Inr pub_date \<Rightarrow>
             if too_old pub_date cutoff then Inr st
             else if matches_exclude_keywords (combined_text entry) exclude_keywords
             then Inr st
             else if \<not> matches_keywords (combined_text entry) keywords then Inr st
             else case published_text pub_date of
                    Inl x \<Rightarrow> Inl x
                  | Inr published \<Rightarrow>
                      Inr (st\<lparr>seen_urls := insert url (seen_urls st),
                              articles := articles st
                                @ [build_article feed_config name entry published]\<rparr>))"

fun process_entries ::
  "datetime \<Rightarrow> str list \<Rightarrow> str list \<Rightarrow> feed_config \<Rightarrow> str \<Rightarrow> entry list
     \<Rightarrow> collect_state \<Rightarrow> exn + collect_state" where
  "process_entries cutoff keywords exclude_keywords feed_config name [] st = Inr st"
| "process_entries cutoff keywords exclude_keywords feed_config name (entry # entries) st =
     (case process_entry cutoff keywords exclude_keywords feed_config name entry st of
        Inl x \<Rightarrow> Inl x
      | Inr st' \<Rightarrow>
          process_entries cutoff keywords exclude_keywords feed_config name entries st')"

text \<open>
  The body of the loop over the completed futures: the feed of the future and the result
  of its \<^verbatim>\<open>fetch_single_feed\<close>. \<^verbatim>\<open>if error:\<close> holds for a string that is not empty.
\<close>

definition process_future ::
  "datetime \<Rightarrow> str list \<Rightarrow> str list \<Rightarrow> feed_config \<times> parse_outcome
     \<Rightarrow> collect_state \<Rightarrow> exn + collect_state" where
  "process_future cutoff keywords exclude_keywords future st =
     (case future of (feed_config, outcome) \<Rightarrow>
        (case fetch_single_feed feed_config outcome of (name, entries, error) \<Rightarrow>
           (case error of
              None \<Rightarrow>
                process_entries cutoff keywords exclude_keywords feed_config name entries st
            | Some msg \<Rightarrow>
                if msg \<noteq> []
                then Inr (st\<lparr>errors := errors st @ [\<lparr>err_name = name, err_error = msg\<rparr>]\<rparr>)
                else process_entries cutoff keywords exclude_keywords feed_config name
                       entries st)))"

fun process_futures ::
  "datetime \<Rightarrow> str list \<Rightarrow> str list \<Rightarrow> (feed_config \<times> parse_outcome) list
     \<Rightarrow> collect_state \<Rightarrow> exn + collect_state" where
  "process_futures cutoff keywords exclude_keywords [] st = Inr st"
| "process_futures cutoff keywords exclude_keywords (future # futures) st =
     (case process_future cutoff keywords exclude_keywords future st of
        Inl x \<Rightarrow> Inl x
      | Inr st' \<Rightarrow> process_futures cutoff keywords exclude_keywords futures st')"

text \<open>The priority table of the final sort, and its key with the default 99.\<close>

definition category_order :: "(str \<times> int) list" where
  "category_order =
     [(ascii ''official'', 0), (ascii ''domestic'', 1), (ascii ''international'', 2),
      (ascii ''tech'', 3), (ascii ''reddit'', 4), (ascii ''industry'', 5),
      (ascii ''other'', 6)]"

definition sort_rank :: "article \<Rightarrow> int" where
  "sort_rank a = (case map_of category_order (a_category a) of Some r \<Rightarrow> r | None \<Rightarrow> 99)"

text \<open>
  \<^verbatim>\<open>cutoff_time = target_date - timedelta(hours=fetch_hours)\<close>, with the default of 48
  hours.
\<close>

definition cutoff_time :: "config \<Rightarrow> datetime \<Rightarrow> exn + datetime" where
  "cutoff_time config target_date =
     (case timedelta_hours (getattr (cfg_fetch_hours config) 48) of
        Inl x \<Rightarrow> Inl x
      | Inr delta \<Rightarrow> datetime_sub target_date delta)"

text \<open>
  \<^verbatim>\<open>collect_articles\<close>. The pool fetches the feeds of the configuration in parallel and
  \<^verbatim>\<open>as_completed\<close> hands the futures over in the order in which they finish, one future
  for each feed. That order and what each fetch met are the third argument: the feeds in
  the order of completion, each with the outcome of its fetch. The predicate
  \<open>as_completed\<close> says that such a list is one the pool can hand over for a configuration;
  the function itself reads the feeds from that list only. \<^verbatim>\<open>list.sort\<close> is a stable
  sort, as \<open>sort_key\<close> is. The progress lines the function prints are left out.
\<close>

definition as_completed :: "config \<Rightarrow> (feed_config \<times> parse_outcome) list \<Rightarrow> bool" where
  "as_completed config completed =
     (mset (map fst completed) = mset (getattr (cfg_feeds config) []))"

definition collect_articles ::
  "config \<Rightarrow> datetime \<Rightarrow> (feed_config \<times> parse_outcome) list
     \<Rightarrow> exn + (article list \<times> fetch_error list)" where
  "collect_articles config target_date completed =
     (let keywords = getattr (cfg_keywords config) [];
          exclude_keywords = getattr (cfg_exclude_keywords config) []
      in case cutoff_time config target_date of
           Inl x \<Rightarrow> Inl x
         | Inr cutoff \<Rightarrow>
             (case process_futures cutoff keywords exclude_keywords completed
                     \<lparr>articles = [], errors = [], seen_urls = {}\<rparr> of
                Inl x \<Rightarrow> Inl x
              | Inr st \<Rightarrow> Inr (sort_key sort_rank (articles st), errors st)))"

subsection \<open>Rendering the digest\<close>

text \<open>
  The labels of \<^verbatim>\<open>category_label\<close>, each a pictograph, a space and a Japanese name,
  written by their code points; a category without a label is shown as it is.
\<close>

definition labels :: "(str \<times> str) list" where
  "labels =
     [(ascii ''official'', [127970, 32, 65, 73, 20225, 26989, 20844, 24335]),
      (ascii ''domestic'', [128240, 32, 22269, 20869, 12513, 12487, 12451, 12450]),
      (ascii ''international'', [127760, 32, 28023, 22806, 12513, 12487, 12451, 12450]),
      (ascii ''tech'', [128187, 32, 25216, 34899, 12467, 12511, 12517, 12491, 12486, 12451]),
      (ascii ''reddit'', [128172, 32, 82, 101, 100, 100, 105, 116]),
      (ascii ''industry'', [127471, 127477, 32, 26989, 30028, 29305, 21270]),
      (ascii ''other'', [128203, 32, 12381, 12398, 20182])]"

definition category_label :: "str \<Rightarrow> str" where
  "category_label category =
     (case map_of labels category of Some l \<Rightarrow> l | None \<Rightarrow> category)"

definition WEEKDAY_JA :: "str list" where
  "WEEKDAY_JA = [[26376], [28779], [27700], [26408], [37329], [22303], [26085]]"

text \<open>The checklist line of an article and the line of an error.\<close>

definition checklist_line :: "article \<Rightarrow> str" where
  "checklist_line article =
     ascii ''- [ ] ['' @ a_title article @ ascii '' | '' @ a_source article
       @ ascii '']('' @ a_url article @ ascii '')''"

definition error_line :: "fetch_error \<Rightarrow> str" where
  "error_line err = ascii ''- **'' @ err_name err @ ascii ''**: '' @ err_error err"

text \<open>
  The loop over the articles, with \<^verbatim>\<open>current_category\<close> as its variable: the lines it
  appends.
\<close>

fun article_lines :: "str \<Rightarrow> article list \<Rightarrow> str list" where
  "article_lines current_category [] = []"
| "article_lines current_category (article # rest) =
     (if a_category article \<noteq> current_category
      then [ascii ''## '' @ category_label (a_category article), []]
      else [])
     @ [checklist_line article]
     @ (if a_summary article \<noteq> [] then [ascii ''      '' @ take 150 (a_summary article)]
        else [])
     @ [[]]
     @ article_lines
         (if a_category article \<noteq> current_category then a_category article
          else current_category)
         rest"

text \<open>\<^verbatim>\<open>"\n".join(lines)\<close>.\<close>

fun join_lines :: "str list \<Rightarrow> str" where
  "join_lines [] = []"
| "join_lines [l] = l"
| "join_lines (l # ls) = l @ [10] @ join_lines ls"

text \<open>
  The lines of the digest in its three parts, and \<^verbatim>\<open>generate_markdown\<close>, which joins
  them: the header, the articles or the line that says there is none, and the errors. The
  clock read by \<^verbatim>\<open>datetime.now(JST)\<close> is the argument \<open>now\<close>. The Japanese literals are
  written by their code points.
\<close>

definition header_lines ::
  "article list \<Rightarrow> fetch_error list \<Rightarrow> datetime \<Rightarrow> datetime \<Rightarrow> str list" where
  "header_lines arts errs target_date now =
     (let weekday_ja = WEEKDAY_JA ! nat (weekday target_date);
          date_jp = (case dt_date target_date of (year, month, day) \<Rightarrow>
            str_of_nat (nat year) @ [24180] @ str_of_nat (nat month) @ [26376]
              @ str_of_nat (nat day) @ [26085, 65288] @ weekday_ja @ [65289])
      in [[35, 32, 65, 73, 32, 78, 101, 119, 115, 32, 8212, 32] @ date_jp,
          [],
          [62, 32, 33258, 21205, 21454, 38598, 58, 32] @ str_of_nat (length arts)
            @ [32, 20214, 32, 47, 32, 12456, 12521, 12540, 58, 32] @ str_of_nat (length errs)
            @ [32, 20214],
          [62, 32, 21454, 38598, 26178, 21051, 58, 32] @ strftime_ymd_hm now @ ascii '' JST'',
          []])"

definition error_lines :: "fetch_error list \<Rightarrow> str list" where
  "error_lines errs =
     (if errs \<noteq> []
      then [ascii ''---'', [], [35, 35, 32, 9888, 32, 21462, 24471, 12456, 12521, 12540], []]
             @ map error_line errs @ [[]]
      else [])"

definition digest_lines ::
  "config \<Rightarrow> article list \<Rightarrow> fetch_error list \<Rightarrow> datetime \<Rightarrow> datetime \<Rightarrow> str list" where
  "digest_lines config arts errs target_date now =
     header_lines arts errs target_date now
     @ (if arts = []
        then [[26412, 26085, 12398, 35442, 24403, 35352, 20107, 12399, 12354, 12426, 12414,
               12379, 12435, 12391, 12375, 12383, 12290],
              []]
        else article_lines [] arts)
     @ error_lines errs"

definition generate_markdown ::
  "config \<Rightarrow> article list \<Rightarrow> fetch_error list \<Rightarrow> datetime \<Rightarrow> datetime \<Rightarrow> str" where
  "generate_markdown config arts errs target_date now =
     join_lines (digest_lines config arts errs target_date now)"

section \<open>Notions of the statements\<close>

text \<open>
  An entry is accepted as the article \<open>a\<close>: it passes every check of the loop body that
  does not look at the URLs seen so far, and \<open>a\<close> is the dictionary built from it.
\<close>

definition accepted ::
  "datetime \<Rightarrow> str list \<Rightarrow> str list \<Rightarrow> feed_config \<Rightarrow> str \<Rightarrow> entry \<Rightarrow> article \<Rightarrow> bool" where
  "accepted cutoff keywords exclude_keywords feed_config name entry a =
     (getattr (e_link entry) [] \<noteq> []
      \<and> (case parse_entry_date entry of
           Inl x \<Rightarrow> False
         | Inr pub_date \<Rightarrow>
             \<not> too_old pub_date cutoff
             \<and> \<not> matches_exclude_keywords (combined_text entry) exclude_keywords
             \<and> matches_keywords (combined_text entry) keywords
             \<and> (case published_text pub_date of
                  Inl x \<Rightarrow> False
                | Inr published \<Rightarrow> a = build_article feed_config name entry published)))"

text \<open>An article stems from an accepted entry of one of the completed fetches.\<close>

definition origin ::
  "datetime \<Rightarrow> str list \<Rightarrow> str list \<Rightarrow> (feed_config \<times> parse_outcome) list \<Rightarrow> article
     \<Rightarrow> bool" where
  "origin cutoff keywords exclude_keywords completed a =
     (\<exists>(feed_config, outcome) \<in> set completed.
        \<exists>entry \<in> set (fst (snd (fetch_single_feed feed_config outcome))).
          accepted cutoff keywords exclude_keywords feed_config (fc_name feed_config) entry a)"

section \<open>Example inputs\<close>

text \<open>
  Two feeds, one with every key and one with the two required keys only; an entry about
  GPT-5 published on 2026-11-04 at 01:00 UTC; a configuration with the first feed and the
  one keyword \<^verbatim>\<open>GPT\<close>, and the same with both feeds and with the second feed alone;
  the target date 2026-11-04 12:30:15 at UTC+9; and the article the entry becomes, up to
  its source, category and URL.
\<close>

definition feed_official :: feed_config where
  "feed_official =
     \<lparr>fc_name = ascii ''OpenAI Blog'', fc_url = ascii ''https://openai.com/rss'',
      fc_category = Some (ascii ''official''), fc_language = Some (ascii ''en'')\<rparr>"

definition feed_bare :: feed_config where
  "feed_bare =
     \<lparr>fc_name = ascii ''Mirror'', fc_url = ascii ''https://mirror.example/feed'',
      fc_category = None, fc_language = None\<rparr>"

definition entry_gpt :: entry where
  "entry_gpt =
     \<lparr>e_link = Some (ascii ''https://openai.com/gpt5''),
      e_title = Some (ascii ''OpenAI launches GPT-5''),
      e_summary = Some (ascii ''<p>A new model</p>''),
      e_published_parsed = Some [2026, 11, 4, 1, 0, 0, 2, 308, 0],
      e_updated_parsed = None\<rparr>"

definition config_gpt :: config where
  "config_gpt =
     \<lparr>cfg_feeds = Some [feed_official], cfg_keywords = Some [ascii ''GPT''],
      cfg_exclude_keywords = None, cfg_fetch_hours = None\<rparr>"

definition config_both :: config where
  "config_both = config_gpt\<lparr>cfg_feeds := Some [feed_official, feed_bare]\<rparr>"

definition config_bare :: config where
  "config_bare = config_gpt\<lparr>cfg_feeds := Some [feed_bare]\<rparr>"

definition noon :: datetime where
  "noon = \<lparr>dt_local = 63929392215000000, dt_utcoffset = JST\<rparr>"

definition article_gpt :: "str \<Rightarrow> str \<Rightarrow> str \<Rightarrow> article" where
  "article_gpt source category url =
     \<lparr>a_title = ascii ''OpenAI launches GPT-5'', a_url = url, a_source = source,
      a_category = category, a_language = ascii ''en'',
      a_published = ascii ''2026-11-04 10:00'', a_summary = ascii ''A new model''\<rparr>"

text \<open>
  The cutoff of that target date with the default window of 48 hours, and the state in
  which the loops start.
\<close>

definition cutoff_noon :: datetime where
  "cutoff_noon = \<lparr>dt_local = 63929219415000000, dt_utcoffset = JST\<rparr>"

definition empty_state :: collect_state where
  "empty_state = \<lparr>articles = [], errors = [], seen_urls = {}\<rparr>"

text \<open>
  Feeds of further categories, the entry at other URLs, and a run of six fetches with its
  configuration and its sorted result; the entry with an old date and with a date no
  calendar has.
\<close>

definition feed_in :: "str \<Rightarrow> str \<Rightarrow> feed_config" where
  "feed_in name category =
     \<lparr>fc_name = name, fc_url = ascii ''https://feeds.example/rss'',
      fc_category = Some category, fc_language = None\<rparr>"

definition entry_at :: "str \<Rightarrow> entry" where
  "entry_at url = entry_gpt\<lparr>e_link := Some url\<rparr>"

definition run_mixed :: "(feed_config \<times> parse_outcome) list" where
  "run_mixed =
     [(feed_in (ascii ''Zine'') (ascii ''blog''), Parsed False [] [entry_at (ascii ''u1'')]),
      (feed_bare, Parsed False [] [entry_at (ascii ''u2'')]),
      (feed_in (ascii ''Sub'') (ascii ''reddit''), Parsed False [] [entry_at (ascii ''u3'')]),
      (feed_in (ascii ''Mag'') (ascii ''zine''), Parsed False [] [entry_at (ascii ''u4'')]),
      (feed_official, Parsed False [] [entry_at (ascii ''u5'')]),
      (feed_in (ascii ''Zine'') (ascii ''blog''), Parsed False [] [entry_at (ascii ''u6'')])]"

definition config_mixed :: config where
  "config_mixed = config_gpt\<lparr>cfg_feeds := Some (map fst run_mixed)\<rparr>"

definition sorted_mixed :: "article list" where
  "sorted_mixed =
     [article_gpt (ascii ''OpenAI Blog'') (ascii ''official'') (ascii ''u5''),
      article_gpt (ascii ''Sub'') (ascii ''reddit'') (ascii ''u3''),
      article_gpt (ascii ''Mirror'') (ascii ''other'') (ascii ''u2''),
      article_gpt (ascii ''Zine'') (ascii ''blog'') (ascii ''u1''),
      article_gpt (ascii ''Mag'') (ascii ''zine'') (ascii ''u4''),
      article_gpt (ascii ''Zine'') (ascii ''blog'') (ascii ''u6'')]"

definition entry_stale :: entry where
  "entry_stale = entry_gpt\<lparr>e_published_parsed := Some [2026, 11, 1, 0, 0, 0, 6, 305, 0]\<rparr>"

definition entry_undated :: entry where
  "entry_undated =
     entry_gpt\<lparr>e_published_parsed := Some [2026, 2, 30, 0, 0, 0, 0, 61, 0],
               e_updated_parsed := None\<rparr>"

text \<open>
  Two entries dated by \<^verbatim>\<open>updated_parsed\<close>: one without \<^verbatim>\<open>published_parsed\<close> and
  with an old update, one whose \<^verbatim>\<open>published_parsed\<close> makes no date and with a recent
  update.
\<close>

definition entry_updated_stale :: entry where
  "entry_updated_stale =
     entry_gpt\<lparr>e_published_parsed := None,
               e_updated_parsed := Some [2026, 11, 1, 0, 0, 0, 6, 305, 0]\<rparr>"

definition entry_updated_fresh :: entry where
  "entry_updated_fresh =
     entry_gpt\<lparr>e_published_parsed := Some [2026, 2, 30, 0, 0, 0, 0, 61, 0],
               e_updated_parsed := Some [2026, 11, 4, 1, 0, 0, 2, 308, 0]\<rparr>"



section \<open>Reading a digest back\<close>

text \<open>
  The reader of the round trip: \<^verbatim>\<open>text.split("\n")\<close> gives the lines of the digest, a
  checklist line is one that starts with \<^verbatim>\<open>- [ ] [\<close>, and such a line is read from
  the right: the URL follows the last \<^verbatim>\<open>]\<close>, the source the last \<^verbatim>\<open>|\<close> before it,
  and the title is the rest.
\<close>

fun split_lines :: "str \<Rightarrow> str list" where
  "split_lines [] = [[]]"
| "split_lines (c # cs) =
     (if c = 10 then [] # split_lines cs
      else case split_lines cs of [] \<Rightarrow> [[c]] | l # ls \<Rightarrow> (c # l) # ls)"

definition is_checklist_line :: "str \<Rightarrow> bool" where
  "is_checklist_line line = startswith line (ascii ''- [ ] ['')"

definition parse_checklist_line :: "str \<Rightarrow> str \<times> str \<times> str" where
  "parse_checklist_line line =
     (let body = rev (butlast (drop 7 line));
          url_part = takeWhile (\<lambda>c. c \<noteq> 93) body;
          left = drop 1 (dropWhile (\<lambda>c. c \<noteq> 93) body);
          source_part = takeWhile (\<lambda>c. c \<noteq> 124) left;
          title_part = drop 1 (dropWhile (\<lambda>c. c \<noteq> 124) left)
      in (rev (drop 1 title_part), drop 1 (rev source_part), drop 1 (rev url_part)))"

text \<open>
  The articles whose lines stay whole in the digest: no field that is printed holds a line
  break. The articles that reader can take: moreover, the URL holds no \<^verbatim>\<open>]\<close> and the
  source no \<^verbatim>\<open>|\<close>.
\<close>

definition unbroken :: "article \<Rightarrow> bool" where
  "unbroken a =
     (10 \<notin> set (a_title a) \<and> 10 \<notin> set (a_source a) \<and> 10 \<notin> set (a_url a)
      \<and> 10 \<notin> set (a_summary a) \<and> 10 \<notin> set (a_category a))"

definition printable :: "article \<Rightarrow> bool" where
  "printable a = (unbroken a \<and> 93 \<notin> set (a_url a) \<and> 124 \<notin> set (a_source a))"

text \<open>
  Two articles that differ in where the title ends and the source begins, and one whose
  source holds a line break.
\<close>

definition article_left :: article where
  "article_left =
     (article_gpt (ascii ''News'') (ascii ''official'') (ascii ''u1''))
       \<lparr>a_title := ascii ''GPT-5 | OpenAI''\<rparr>"

definition article_right :: article where
  "article_right =
     (article_gpt (ascii ''OpenAI | News'') (ascii ''official'') (ascii ''u1''))
       \<lparr>a_title := ascii ''GPT-5''\<rparr>"

definition article_broken :: article where
  "article_broken =
     article_gpt (ascii ''A'' @ [10] @ ascii ''B'') (ascii ''official'') (ascii ''u1'')"

section \<open>Properties\<close>

subsection \<open>Text\<close>

lemma startswith_iff: "startswith xs ps \<longleftrightarrow> (\<exists>suf. xs = ps @ suf)"
  by (induction xs ps rule: startswith.induct) auto

lemma contains_iff: "contains xs sub \<longleftrightarrow> (\<exists>pre suf. xs = pre @ sub @ suf)"
proof (induction xs)
  case Nil
  then show ?case by auto
next
  case (Cons x xs)
  show ?case
  proof
    assume "contains (x # xs) sub"
    then consider "startswith (x # xs) sub" | "contains xs sub" by auto
    then show "\<exists>pre suf. x # xs = pre @ sub @ suf"
    proof cases
      case 1
      then obtain suf where "x # xs = sub @ suf" by (auto simp: startswith_iff)
      then have "x # xs = [] @ sub @ suf" by simp
      then show ?thesis by blast
    next
      case 2
      then obtain pre suf where "xs = pre @ sub @ suf" using Cons.IH by blast
      then have "x # xs = (x # pre) @ sub @ suf" by simp
      then show ?thesis by blast
    qed
  next
    assume "\<exists>pre suf. x # xs = pre @ sub @ suf"
    then obtain pre suf where eq: "x # xs = pre @ sub @ suf" by blast
    show "contains (x # xs) sub"
    proof (cases pre)
      case Nil
      with eq have "startswith (x # xs) sub" by (auto simp: startswith_iff)
      then show ?thesis by simp
    next
      case (Cons p pre')
      with eq have "xs = pre' @ sub @ suf" by simp
      then have "contains xs sub" using Cons.IH by blast
      then show ?thesis by simp
    qed
  qed
qed

subsection \<open>The loops of the collector\<close>

lemma process_entry_cases:
  assumes "process_entry cutoff kws ex fc name e st = Inr st'"
  shows "st' = st \<or>
         (\<exists>a. accepted cutoff kws ex fc name e a \<and> a_url a \<notin> seen_urls st
               \<and> st' = st\<lparr>seen_urls := insert (a_url a) (seen_urls st),
                            articles := articles st @ [a]\<rparr>)"
  using assms
  by (auto simp: process_entry_def accepted_def Let_def build_article_def
           split: if_splits sum.splits)

lemma process_entries_cases:
  assumes "process_entries cutoff kws ex fc name es st = Inr st'"
  shows "\<exists>new. articles st' = articles st @ new
           \<and> errors st' = errors st
           \<and> seen_urls st' = seen_urls st \<union> set (map a_url new)
           \<and> distinct (map a_url new)
           \<and> set (map a_url new) \<inter> seen_urls st = {}
           \<and> (\<forall>a \<in> set new. \<exists>e \<in> set es. accepted cutoff kws ex fc name e a)"
  using assms
proof (induction es arbitrary: st)
  case Nil
  then show ?case by simp
next
  case (Cons e es)
  from Cons.prems obtain st1 where
    s1: "process_entry cutoff kws ex fc name e st = Inr st1" and
    s2: "process_entries cutoff kws ex fc name es st1 = Inr st'"
    by (auto split: sum.splits)
  from Cons.IH [OF s2] obtain new where new:
    "articles st' = articles st1 @ new" "errors st' = errors st1"
    "seen_urls st' = seen_urls st1 \<union> set (map a_url new)"
    "distinct (map a_url new)" "set (map a_url new) \<inter> seen_urls st1 = {}"
    "\<forall>a \<in> set new. \<exists>e \<in> set es. accepted cutoff kws ex fc name e a"
    by blast
  from process_entry_cases [OF s1] show ?case
  proof
    assume "st1 = st"
    with new show ?thesis by (intro exI [of _ new]) auto
  next
    assume "\<exists>a. accepted cutoff kws ex fc name e a \<and> a_url a \<notin> seen_urls st
               \<and> st1 = st\<lparr>seen_urls := insert (a_url a) (seen_urls st),
                            articles := articles st @ [a]\<rparr>"
    then obtain a where a: "accepted cutoff kws ex fc name e a" "a_url a \<notin> seen_urls st"
      "st1 = st\<lparr>seen_urls := insert (a_url a) (seen_urls st), articles := articles st @ [a]\<rparr>"
      by blast
    with new show ?thesis by (intro exI [of _ "a # new"]) auto
  qed
qed

lemma fetch_single_feed_name: "fst (fetch_single_feed fc oc) = fc_name fc"
  by (simp add: fetch_single_feed_def Let_def split: parse_outcome.splits)

lemma process_future_cases:
  assumes "process_future cutoff kws ex (fc, oc) st = Inr st'"
  shows "\<exists>new. articles st' = articles st @ new
           \<and> seen_urls st' = seen_urls st \<union> set (map a_url new)
           \<and> distinct (map a_url new)
           \<and> set (map a_url new) \<inter> seen_urls st = {}
           \<and> (\<forall>a \<in> set new. \<exists>e \<in> set (fst (snd (fetch_single_feed fc oc))).
                  accepted cutoff kws ex fc (fc_name fc) e a)"
proof -
  obtain name es err where f: "fetch_single_feed fc oc = (name, es, err)"
    by (cases "fetch_single_feed fc oc") auto
  then have name: "name = fc_name fc"
    using fetch_single_feed_name [of fc oc] by simp
  show ?thesis
  proof (cases "\<exists>msg. err = Some msg \<and> msg \<noteq> []")
    case True
    with assms f have "st' = st\<lparr>errors := errors st @ [\<lparr>err_name = name, err_error = the err\<rparr>]\<rparr>"
      by (auto simp: process_future_def)
    then show ?thesis by (intro exI [of _ "[]"]) simp
  next
    case False
    with assms f have "process_entries cutoff kws ex fc name es st = Inr st'"
      by (auto simp: process_future_def split: option.splits if_splits)
    from process_entries_cases [OF this] f name show ?thesis by auto
  qed
qed

lemma process_futures_cases:
  assumes "process_futures cutoff kws ex completed st = Inr st'"
  shows "\<exists>new. articles st' = articles st @ new
           \<and> seen_urls st' = seen_urls st \<union> set (map a_url new)
           \<and> distinct (map a_url new)
           \<and> set (map a_url new) \<inter> seen_urls st = {}
           \<and> (\<forall>a \<in> set new. origin cutoff kws ex completed a)"
  using assms
proof (induction completed arbitrary: st)
  case Nil
  then show ?case by simp
next
  case (Cons future futures)
  obtain fc oc where fut: "future = (fc, oc)" by (cases future)
  from Cons.prems obtain st1 where
    s1: "process_future cutoff kws ex (fc, oc) st = Inr st1" and
    s2: "process_futures cutoff kws ex futures st1 = Inr st'"
    by (auto simp: fut split: sum.splits)
  from process_future_cases [OF s1] obtain new1 where new1:
    "articles st1 = articles st @ new1"
    "seen_urls st1 = seen_urls st \<union> set (map a_url new1)"
    "distinct (map a_url new1)" "set (map a_url new1) \<inter> seen_urls st = {}"
    "\<forall>a \<in> set new1. \<exists>e \<in> set (fst (snd (fetch_single_feed fc oc))).
        accepted cutoff kws ex fc (fc_name fc) e a"
    by blast
  from Cons.IH [OF s2] obtain new2 where new2:
    "articles st' = articles st1 @ new2"
    "seen_urls st' = seen_urls st1 \<union> set (map a_url new2)"
    "distinct (map a_url new2)" "set (map a_url new2) \<inter> seen_urls st1 = {}"
    "\<forall>a \<in> set new2. origin cutoff kws ex futures a"
    by blast
  have o1: "\<forall>a \<in> set new1. origin cutoff kws ex (future # futures) a"
    using new1(5) by (auto simp: origin_def fut)
  have o2: "\<forall>a \<in> set new2. origin cutoff kws ex (future # futures) a"
    using new2(5) by (auto simp: origin_def)
  show ?case
  proof (intro exI [of _ "new1 @ new2"] conjI)
    show "articles st' = articles st @ new1 @ new2" using new1(1) new2(1) by simp
    show "seen_urls st' = seen_urls st \<union> set (map a_url (new1 @ new2))"
      using new1(2) new2(2) by auto
    show "distinct (map a_url (new1 @ new2))"
      using new1(2,3) new2(3,4) by auto
    show "set (map a_url (new1 @ new2)) \<inter> seen_urls st = {}"
      using new1(2,4) new2(4) by auto
    show "\<forall>a \<in> set (new1 @ new2). origin cutoff kws ex (future # futures) a"
      using o1 o2 by auto
  qed
qed

lemma collect_articles_cases:
  assumes "collect_articles config target_date completed = Inr (arts, errs)"
  shows "\<exists>cutoff st. cutoff_time config target_date = Inr cutoff
           \<and> process_futures cutoff (getattr (cfg_keywords config) [])
                 (getattr (cfg_exclude_keywords config) []) completed
                 \<lparr>articles = [], errors = [], seen_urls = {}\<rparr> = Inr st
           \<and> arts = sort_key sort_rank (articles st) \<and> errs = errors st"
  using assms by (auto simp: collect_articles_def Let_def split: sum.splits)

lemma collect_articles_origin:
  assumes "collect_articles config target_date completed = Inr (arts, errs)"
  shows "\<exists>cutoff. cutoff_time config target_date = Inr cutoff
           \<and> (\<forall>a \<in> set arts. origin cutoff (getattr (cfg_keywords config) [])
                 (getattr (cfg_exclude_keywords config) []) completed a)"
proof -
  from collect_articles_cases [OF assms] obtain cutoff st where
    c: "cutoff_time config target_date = Inr cutoff" and
    p: "process_futures cutoff (getattr (cfg_keywords config) [])
          (getattr (cfg_exclude_keywords config) []) completed
          \<lparr>articles = [], errors = [], seen_urls = {}\<rparr> = Inr st" and
    a: "arts = sort_key sort_rank (articles st)"
    by blast
  from process_futures_cases [OF p] a c show ?thesis by auto
qed

lemma accepted_url:
  "accepted cutoff kws ex fc name e a \<Longrightarrow> a_url a = getattr (e_link e) [] \<and> a_url a \<noteq> []"
  by (auto simp: accepted_def build_article_def split: sum.splits)

subsection \<open>Keywords and accepted entries\<close>

lemma matches_keywords_iff:
  "matches_keywords text kws \<longleftrightarrow>
     (\<exists>kw \<in> set kws. \<exists>pre suf. lower text = pre @ lower kw @ suf)"
  by (simp add: matches_keywords_def Let_def list_ex_iff contains_iff)


lemma acceptedD:
  assumes "accepted cutoff kws ex fc name e a"
  obtains pub_date published where
    "getattr (e_link e) [] \<noteq> []" "parse_entry_date e = Inr pub_date"
    "\<not> too_old pub_date cutoff" "\<not> matches_exclude_keywords (combined_text e) ex"
    "matches_keywords (combined_text e) kws" "published_text pub_date = Inr published"
    "a = build_article fc name e published"
  using assms by (auto simp: accepted_def split: sum.splits)

lemma originD:
  assumes "origin cutoff kws ex completed a"
  obtains fc outcome e where "(fc, outcome) \<in> set completed"
    "e \<in> set (fst (snd (fetch_single_feed fc outcome)))"
    "accepted cutoff kws ex fc (fc_name fc) e a"
  using assms by (auto simp: origin_def)

lemma process_entry_unchanged:
  assumes "process_entry cutoff kws ex fc name e st = Inr st'"
    and "\<And>a. \<not> accepted cutoff kws ex fc name e a"
  shows "st' = st"
  using process_entry_cases [OF assms(1)] assms(2) by blast

lemma accepted_fields:
  assumes "accepted cutoff kws ex fc name e a"
  shows "a_source a = name
         \<and> (fc_category fc = None \<longrightarrow> a_category a = ascii ''other'')
         \<and> (fc_language fc = None \<longrightarrow> a_language a = ascii ''en'')"
proof -
  from assms obtain published where "a = build_article fc name e published"
    by (rule acceptedD)
  then show ?thesis by (simp add: build_article_def getattr_def)
qed

subsection \<open>C1: the URLs of a run are unique\<close>

text \<open>
  C1. Whatever the order in which the fetches complete and whatever they return, a run of
  \<^verbatim>\<open>collect_articles\<close> that returns gives a list of articles no two of which have the
  same \<open>url\<close>, and none has an empty one.
\<close>

theorem collected_urls_unique:
  assumes "collect_articles config target_date completed = Inr (arts, errs)"
  shows "distinct (map a_url arts) \<and> [] \<notin> set (map a_url arts)"
proof
  from collect_articles_cases [OF assms] obtain cutoff st where
    p: "process_futures cutoff (getattr (cfg_keywords config) [])
          (getattr (cfg_exclude_keywords config) []) completed
          \<lparr>articles = [], errors = [], seen_urls = {}\<rparr> = Inr st" and
    a: "arts = sort_key sort_rank (articles st)"
    by blast
  from process_futures_cases [OF p] have "distinct (map a_url (articles st))" by auto
  moreover have "mset (map a_url arts) = mset (map a_url (articles st))"
    by (simp add: a)
  ultimately show "distinct (map a_url arts)" by (metis mset_eq_imp_distinct_iff)
next
  from collect_articles_origin [OF assms]
  have "\<forall>a \<in> set arts. a_url a \<noteq> []"
    by (auto simp: origin_def dest: accepted_url)
  then show "[] \<notin> set (map a_url arts)" by auto
qed

theorem collected_urls_unique_witness:
  "as_completed config_both
     [(feed_bare, Parsed False [] [entry_gpt, entry_gpt]),
      (feed_official, Parsed False [] [entry_gpt])]
   \<and> collect_articles config_both noon
        [(feed_bare, Parsed False [] [entry_gpt, entry_gpt]),
         (feed_official, Parsed False [] [entry_gpt])]
      = Inr ([article_gpt (ascii ''Mirror'') (ascii ''other'')
                (ascii ''https://openai.com/gpt5'')], [])
   \<and> distinct (map a_url [article_gpt (ascii ''Mirror'') (ascii ''other'')
                             (ascii ''https://openai.com/gpt5'')])"
proof -
  have order: "as_completed config_both
     [(feed_bare, Parsed False [] [entry_gpt, entry_gpt]),
      (feed_official, Parsed False [] [entry_gpt])]"
    by code_simp
  have run: "collect_articles config_both noon
        [(feed_bare, Parsed False [] [entry_gpt, entry_gpt]),
         (feed_official, Parsed False [] [entry_gpt])]
      = Inr ([article_gpt (ascii ''Mirror'') (ascii ''other'')
                (ascii ''https://openai.com/gpt5'')], [])"
    by code_simp
  from collected_urls_unique [OF run]
  have "distinct (map a_url [article_gpt (ascii ''Mirror'') (ascii ''other'')
                               (ascii ''https://openai.com/gpt5'')])"
    by (rule conjunct1)
  with order run show ?thesis by (intro conjI)
qed

subsection \<open>C2: no keyword, no article\<close>

text \<open>
  C2. When the list of include keywords is empty (the key is absent, or its list is empty),
  a run that returns has no article at all: \<^verbatim>\<open>any\<close> over no keyword is false for every
  text, so no entry passes the keyword check.
\<close>

theorem empty_keywords_nothing_passes:
  assumes "getattr (cfg_keywords config) [] = []"
    and "collect_articles config target_date completed = Inr (arts, errs)"
  shows "arts = [] \<and> \<not> matches_keywords text (getattr (cfg_keywords config) [])"
proof
  from collect_articles_origin [OF assms(2)] obtain cutoff where
    o: "\<forall>a \<in> set arts. origin cutoff (getattr (cfg_keywords config) [])
          (getattr (cfg_exclude_keywords config) []) completed a"
    by blast
  have "a \<notin> set arts" for a
  proof
    assume "a \<in> set arts"
    with o have "origin cutoff [] (getattr (cfg_exclude_keywords config) []) completed a"
      by (simp add: assms(1))
    then obtain fc e where
      "accepted cutoff [] (getattr (cfg_exclude_keywords config) []) fc (fc_name fc) e a"
      by (auto elim: originD)
    then have "matches_keywords (combined_text e) []" by (auto elim: acceptedD)
    then show False by (simp add: matches_keywords_def)
  qed
  then show "arts = []" by (cases arts) auto
next
  show "\<not> matches_keywords text (getattr (cfg_keywords config) [])"
    by (simp add: assms(1) matches_keywords_def)
qed

theorem empty_keywords_nothing_passes_witness:
  "getattr (cfg_keywords (config_gpt\<lparr>cfg_keywords := None\<rparr>)) [] = []
   \<and> collect_articles (config_gpt\<lparr>cfg_keywords := None\<rparr>) noon
        [(feed_official, Parsed False [] [entry_gpt])] = Inr ([], [])
   \<and> \<not> matches_keywords (combined_text entry_gpt) []"
proof -
  have k: "getattr (cfg_keywords (config_gpt\<lparr>cfg_keywords := None\<rparr>)) [] = []"
    by (simp add: getattr_def)
  have run: "collect_articles (config_gpt\<lparr>cfg_keywords := None\<rparr>) noon
        [(feed_official, Parsed False [] [entry_gpt])] = Inr ([], [])"
    by code_simp
  from empty_keywords_nothing_passes [OF k run, of "combined_text entry_gpt"] k run
  show ?thesis by simp
qed

subsection \<open>C3: the recency check\<close>

lemma parse_attrs_Some:
  assumes "parse_attrs attrs = Inr (Some d)"
  shows "\<exists>parsed. Some parsed \<in> set attrs \<and> datetime_utc (take 6 parsed) = Inr d"
  using assms
proof (induction attrs rule: parse_attrs.induct)
  case 1
  then show ?case by simp
next
  case (2 attrs)
  then show ?case by auto
next
  case (3 parsed attrs)
  show ?case
  proof (cases "parsed = []")
    case True
    with 3 show ?thesis by auto
  next
    case False
    show ?thesis
    proof (cases "datetime_utc (take 6 parsed)")
      case (Inr d')
      with 3 False show ?thesis by auto
    next
      case (Inl e)
      with 3 False show ?thesis by (cases e) auto
    qed
  qed
qed

lemma datetime_utc_utc: "datetime_utc args = Inr d \<Longrightarrow> dt_utcoffset d = 0"
  by (auto simp: datetime_utc_def Let_def split: if_splits list.splits)

lemma datetime_utc_nonempty: "datetime_utc (take 6 parsed) = Inr d \<Longrightarrow> parsed \<noteq> []"
  by (auto simp: datetime_utc_def)

lemma parse_attrs_step:
  assumes "parse_attrs (attr # attrs) = Inr r"
  shows "(\<forall>parsed d. attr = Some parsed \<and> datetime_utc (take 6 parsed) = Inr d \<longrightarrow> r = Some d)
         \<and> ((\<nexists>parsed d. attr = Some parsed \<and> datetime_utc (take 6 parsed) = Inr d)
              \<longrightarrow> parse_attrs attrs = Inr r)"
proof (cases attr)
  case None
  with assms show ?thesis by simp
next
  case (Some p)
  show ?thesis
  proof (cases "p = []")
    case True
    have "datetime_utc (take 6 p) \<noteq> Inr d" for d
      using True datetime_utc_nonempty by blast
    with assms Some True show ?thesis by simp
  next
    case False
    show ?thesis
    proof (cases "datetime_utc (take 6 p)")
      case (Inr d')
      with assms Some False show ?thesis by simp
    next
      case (Inl e)
      with assms Some False show ?thesis by (cases e) simp_all
    qed
  qed
qed

lemma parse_entry_date_updated:
  assumes "parse_entry_date entry = Inr pub_date"
    and "\<nexists>parsed d. e_published_parsed entry = Some parsed
            \<and> datetime_utc (take 6 parsed) = Inr d"
  shows "(\<forall>parsed d. e_updated_parsed entry = Some parsed
            \<and> datetime_utc (take 6 parsed) = Inr d \<longrightarrow> pub_date = Some d)
         \<and> ((\<nexists>parsed d. e_updated_parsed entry = Some parsed
                \<and> datetime_utc (take 6 parsed) = Inr d) \<longrightarrow> pub_date = None)"
proof -
  from assms(1) have "parse_attrs [e_published_parsed entry, e_updated_parsed entry]
      = Inr pub_date"
    by (simp add: parse_entry_date_def)
  from parse_attrs_step [OF this] assms(2)
  have 1: "parse_attrs [e_updated_parsed entry] = Inr pub_date" by blast
  from parse_attrs_step [OF 1]
  have 2: "\<forall>parsed d. e_updated_parsed entry = Some parsed
            \<and> datetime_utc (take 6 parsed) = Inr d \<longrightarrow> pub_date = Some d"
    and 3: "(\<nexists>parsed d. e_updated_parsed entry = Some parsed
                \<and> datetime_utc (take 6 parsed) = Inr d) \<longrightarrow> parse_attrs [] = Inr pub_date"
    by blast+
  from 3 have "(\<nexists>parsed d. e_updated_parsed entry = Some parsed
                \<and> datetime_utc (take 6 parsed) = Inr d) \<longrightarrow> pub_date = None"
    by auto
  with 2 show ?thesis by blast
qed

lemma too_old_iff:
  "too_old pub_date cutoff \<longleftrightarrow> (\<exists>d. pub_date = Some d \<and> instant d < instant cutoff)"
  by (cases pub_date) (simp_all add: too_old_def datetime_lt_def)

lemma cutoff_time_instant:
  assumes "cutoff_time config target_date = Inr cutoff"
  shows "instant cutoff = instant target_date - getattr (cfg_fetch_hours config) 48 * 3600000000"
  using assms
  by (auto simp: cutoff_time_def timedelta_hours_def datetime_sub_def instant_def Let_def
           split: sum.splits if_splits)

lemma process_entry_recency:
  assumes "parse_entry_date entry = Inr pub_date"
    and "getattr (e_link entry) [] \<noteq> []" and "getattr (e_link entry) [] \<notin> seen_urls st"
    and "\<not> matches_exclude_keywords (combined_text entry) ex"
    and "matches_keywords (combined_text entry) kws"
  shows "process_entry cutoff kws ex fc name entry st = Inr st \<longleftrightarrow> too_old pub_date cutoff"
proof (cases "too_old pub_date cutoff")
  case True
  with assms show ?thesis by (simp add: process_entry_def Let_def)
next
  case False
  have "process_entry cutoff kws ex fc name entry st \<noteq> Inr st"
  proof (cases "published_text pub_date")
    case (Inl e)
    with assms False show ?thesis by (simp add: process_entry_def Let_def)
  next
    case (Inr published)
    with assms False have "process_entry cutoff kws ex fc name entry st
      = Inr (st\<lparr>seen_urls := insert (getattr (e_link entry) []) (seen_urls st),
                articles := articles st @ [build_article fc name entry published]\<rparr>)"
      by (simp add: process_entry_def Let_def)
    moreover have "articles (st\<lparr>seen_urls := insert (getattr (e_link entry) []) (seen_urls st),
                articles := articles st @ [build_article fc name entry published]\<rparr>)
                \<noteq> articles st" by simp
    ultimately show ?thesis by (metis sum.inject(2))
  qed
  with False show ?thesis by simp
qed

text \<open>
  C3. Let \<^verbatim>\<open>parse_entry_date\<close> return \<open>pub_date\<close>. The test of the recency check holds
  exactly when \<open>pub_date\<close> is a datetime and its instant is strictly before that of the
  cutoff; it never holds for \<^verbatim>\<open>None\<close>. A datetime it returns is in UTC and is built
  from the first six fields of \<^verbatim>\<open>published_parsed\<close> or of \<^verbatim>\<open>updated_parsed\<close>. It is
  the one of \<^verbatim>\<open>published_parsed\<close> whenever those fields make a date; when
  \<^verbatim>\<open>published_parsed\<close> is absent or makes no date, it is the one of
  \<^verbatim>\<open>updated_parsed\<close> whenever those fields make a date, and \<^verbatim>\<open>None\<close> when they make
  none either. For an entry with a new link that passes both keyword checks, the loop body
  leaves the state as it is exactly when that test holds. The cutoff is the target date
  minus the hours of the window, 48 by default.
\<close>

theorem recency_check:
  "(parse_entry_date entry = Inr pub_date \<longrightarrow>
      (too_old pub_date cutoff \<longleftrightarrow> (\<exists>d. pub_date = Some d \<and> instant d < instant cutoff))
      \<and> (pub_date = None \<longrightarrow> \<not> too_old pub_date cutoff)
      \<and> (\<forall>d. pub_date = Some d \<longrightarrow>
            dt_utcoffset d = 0
            \<and> (\<exists>parsed. (e_published_parsed entry = Some parsed
                            \<or> e_updated_parsed entry = Some parsed)
                  \<and> datetime_utc (take 6 parsed) = Inr d))
      \<and> (\<forall>parsed d. e_published_parsed entry = Some parsed
            \<and> datetime_utc (take 6 parsed) = Inr d \<longrightarrow> pub_date = Some d)
      \<and> ((\<nexists>parsed d. e_published_parsed entry = Some parsed
              \<and> datetime_utc (take 6 parsed) = Inr d) \<longrightarrow>
           (\<forall>parsed d. e_updated_parsed entry = Some parsed
              \<and> datetime_utc (take 6 parsed) = Inr d \<longrightarrow> pub_date = Some d)
           \<and> ((\<nexists>parsed d. e_updated_parsed entry = Some parsed
                  \<and> datetime_utc (take 6 parsed) = Inr d) \<longrightarrow> pub_date = None))
      \<and> (getattr (e_link entry) [] \<noteq> [] \<and> getattr (e_link entry) [] \<notin> seen_urls st
           \<and> \<not> matches_exclude_keywords (combined_text entry) exclude_keywords
           \<and> matches_keywords (combined_text entry) keywords \<longrightarrow>
           (process_entry cutoff keywords exclude_keywords feed_config name entry st = Inr st
              \<longleftrightarrow> too_old pub_date cutoff)))
   \<and> (cutoff_time config target_date = Inr cutoff \<longrightarrow>
        instant cutoff
          = instant target_date - getattr (cfg_fetch_hours config) 48 * 3600000000)"
proof (intro conjI impI allI)
  show "too_old pub_date cutoff \<longleftrightarrow> (\<exists>d. pub_date = Some d \<and> instant d < instant cutoff)"
    by (rule too_old_iff)
  show "\<not> too_old pub_date cutoff" if "pub_date = None"
    using that by (simp add: too_old_def)
next
  fix d
  assume p: "parse_entry_date entry = Inr pub_date" and d: "pub_date = Some d"
  then obtain parsed where
    1: "Some parsed \<in> set [e_published_parsed entry, e_updated_parsed entry]" and
    2: "datetime_utc (take 6 parsed) = Inr d"
    using parse_attrs_Some [of "[e_published_parsed entry, e_updated_parsed entry]" d]
    by (auto simp: parse_entry_date_def)
  from 2 show "dt_utcoffset d = 0" by (rule datetime_utc_utc)
  from 1 2 show "\<exists>parsed. (e_published_parsed entry = Some parsed
                            \<or> e_updated_parsed entry = Some parsed)
                  \<and> datetime_utc (take 6 parsed) = Inr d"
    by (intro exI [of _ parsed]) auto
next
  fix parsed d
  assume p: "parse_entry_date entry = Inr pub_date"
    and "e_published_parsed entry = Some parsed \<and> datetime_utc (take 6 parsed) = Inr d"
  then have e: "e_published_parsed entry = Some parsed" "datetime_utc (take 6 parsed) = Inr d"
    by simp_all
  from e(2) have "parsed \<noteq> []" by (rule datetime_utc_nonempty)
  with p e show "pub_date = Some d" by (simp add: parse_entry_date_def)
next
  fix parsed d
  assume p: "parse_entry_date entry = Inr pub_date"
    and n: "\<nexists>parsed d. e_published_parsed entry = Some parsed
              \<and> datetime_utc (take 6 parsed) = Inr d"
    and u: "e_updated_parsed entry = Some parsed \<and> datetime_utc (take 6 parsed) = Inr d"
  from parse_entry_date_updated [OF p n] u show "pub_date = Some d" by blast
next
  assume p: "parse_entry_date entry = Inr pub_date"
    and n: "\<nexists>parsed d. e_published_parsed entry = Some parsed
              \<and> datetime_utc (take 6 parsed) = Inr d"
    and u: "\<nexists>parsed d. e_updated_parsed entry = Some parsed
              \<and> datetime_utc (take 6 parsed) = Inr d"
  from parse_entry_date_updated [OF p n] u show "pub_date = None" by blast
next
  assume "parse_entry_date entry = Inr pub_date"
    and "getattr (e_link entry) [] \<noteq> [] \<and> getattr (e_link entry) [] \<notin> seen_urls st
           \<and> \<not> matches_exclude_keywords (combined_text entry) exclude_keywords
           \<and> matches_keywords (combined_text entry) keywords"
  then show "process_entry cutoff keywords exclude_keywords feed_config name entry st = Inr st
              \<longleftrightarrow> too_old pub_date cutoff"
    using process_entry_recency by blast
next
  assume "cutoff_time config target_date = Inr cutoff"
  then show "instant cutoff
          = instant target_date - getattr (cfg_fetch_hours config) 48 * 3600000000"
    by (rule cutoff_time_instant)
qed


theorem recency_check_witness:
  "parse_entry_date entry_stale = Inr (Some \<lparr>dt_local = 63929088000000000, dt_utcoffset = 0\<rparr>)
   \<and> too_old (Some \<lparr>dt_local = 63929088000000000, dt_utcoffset = 0\<rparr>) cutoff_noon
   \<and> process_entry cutoff_noon [ascii ''GPT''] [] feed_official (ascii ''OpenAI Blog'')
        entry_stale empty_state = Inr empty_state
   \<and> parse_entry_date entry_gpt = Inr (Some \<lparr>dt_local = 63929350800000000, dt_utcoffset = 0\<rparr>)
   \<and> \<not> too_old (Some \<lparr>dt_local = 63929350800000000, dt_utcoffset = 0\<rparr>) cutoff_noon
   \<and> parse_entry_date entry_undated = Inr None
   \<and> \<not> too_old None cutoff_noon
   \<and> collect_articles config_gpt noon [(feed_official, Parsed False [] [entry_undated])]
      = Inr ([(article_gpt (ascii ''OpenAI Blog'') (ascii ''official'')
                 (ascii ''https://openai.com/gpt5'')) \<lparr>a_published := [19981, 26126]\<rparr>], [])
   \<and> cutoff_time config_gpt noon = Inr cutoff_noon
   \<and> instant cutoff_noon = instant noon - 48 * 3600000000
   \<and> e_published_parsed entry_updated_stale = None
   \<and> parse_entry_date entry_updated_stale
       = Inr (Some \<lparr>dt_local = 63929088000000000, dt_utcoffset = 0\<rparr>)
   \<and> process_entry cutoff_noon [ascii ''GPT''] [] feed_official (ascii ''OpenAI Blog'')
        entry_updated_stale empty_state = Inr empty_state
   \<and> collect_articles config_gpt noon
        [(feed_official, Parsed False [] [entry_updated_stale])] = Inr ([], [])
   \<and> datetime_utc (take 6 [2026, 2, 30, 0, 0, 0, 0, 61, 0]) = Inl ValueError
   \<and> parse_entry_date entry_updated_fresh
       = Inr (Some \<lparr>dt_local = 63929350800000000, dt_utcoffset = 0\<rparr>)
   \<and> collect_articles config_gpt noon
        [(feed_official, Parsed False [] [entry_updated_fresh])]
      = Inr ([article_gpt (ascii ''OpenAI Blog'') (ascii ''official'')
                (ascii ''https://openai.com/gpt5'')], [])"
proof -
  let ?d = "\<lparr>dt_local = 63929088000000000, dt_utcoffset = 0\<rparr>"
  have 1: "parse_entry_date entry_stale = Inr (Some ?d)"
    by code_simp
  have 2: "too_old (Some ?d) cutoff_noon"
    by code_simp
  have h: "getattr (e_link entry_stale) [] \<noteq> []
           \<and> getattr (e_link entry_stale) [] \<notin> seen_urls empty_state
           \<and> \<not> matches_exclude_keywords (combined_text entry_stale) []
           \<and> matches_keywords (combined_text entry_stale) [ascii ''GPT'']"
    by code_simp
  note t = recency_check [of entry_stale "Some ?d" cutoff_noon empty_state "[]"
      "[ascii ''GPT'']" feed_official "ascii ''OpenAI Blog''" config_gpt noon]
  note t5 = t [THEN conjunct1, THEN mp, OF 1, THEN conjunct2, THEN conjunct2,
      THEN conjunct2, THEN conjunct2, THEN conjunct2, THEN mp, OF h]
  from t5 2
  have 3: "process_entry cutoff_noon [ascii ''GPT''] [] feed_official (ascii ''OpenAI Blog'')
        entry_stale empty_state = Inr empty_state"
    by simp
  have 4: "parse_entry_date entry_gpt
             = Inr (Some \<lparr>dt_local = 63929350800000000, dt_utcoffset = 0\<rparr>)"
    by code_simp
  have 5: "\<not> too_old (Some \<lparr>dt_local = 63929350800000000, dt_utcoffset = 0\<rparr>) cutoff_noon"
    by code_simp
  have 6: "parse_entry_date entry_undated = Inr None"
    by code_simp
  have 7: "\<not> too_old None cutoff_noon"
    by code_simp
  have 8: "collect_articles config_gpt noon [(feed_official, Parsed False [] [entry_undated])]
      = Inr ([(article_gpt (ascii ''OpenAI Blog'') (ascii ''official'')
                 (ascii ''https://openai.com/gpt5'')) \<lparr>a_published := [19981, 26126]\<rparr>], [])"
    by code_simp
  have 9: "cutoff_time config_gpt noon = Inr cutoff_noon"
    by code_simp
  from t [THEN conjunct2, THEN mp, OF 9]
  have 10: "instant cutoff_noon = instant noon - 48 * 3600000000"
    by (simp add: config_gpt_def getattr_def)
  have 11: "e_published_parsed entry_updated_stale = None"
    by (simp add: entry_updated_stale_def)
  have 12: "parse_entry_date entry_updated_stale = Inr (Some ?d)"
    by code_simp
  have g: "getattr (e_link entry_updated_stale) [] \<noteq> []
           \<and> getattr (e_link entry_updated_stale) [] \<notin> seen_urls empty_state
           \<and> \<not> matches_exclude_keywords (combined_text entry_updated_stale) []
           \<and> matches_keywords (combined_text entry_updated_stale) [ascii ''GPT'']"
    by code_simp
  note u = recency_check [of entry_updated_stale "Some ?d" cutoff_noon empty_state "[]"
      "[ascii ''GPT'']" feed_official "ascii ''OpenAI Blog''" config_gpt noon]
  note u5 = u [THEN conjunct1, THEN mp, OF 12, THEN conjunct2, THEN conjunct2,
      THEN conjunct2, THEN conjunct2, THEN conjunct2, THEN mp, OF g]
  from u5 2
  have 13: "process_entry cutoff_noon [ascii ''GPT''] [] feed_official (ascii ''OpenAI Blog'')
        entry_updated_stale empty_state = Inr empty_state"
    by simp
  have 14: "collect_articles config_gpt noon
        [(feed_official, Parsed False [] [entry_updated_stale])] = Inr ([], [])"
    by code_simp
  have 15: "datetime_utc (take 6 [2026, 2, 30, 0, 0, 0, 0, 61, 0]) = Inl ValueError"
    by code_simp
  have 16: "parse_entry_date entry_updated_fresh
       = Inr (Some \<lparr>dt_local = 63929350800000000, dt_utcoffset = 0\<rparr>)"
    by code_simp
  have 17: "collect_articles config_gpt noon
        [(feed_official, Parsed False [] [entry_updated_fresh])]
      = Inr ([article_gpt (ascii ''OpenAI Blog'') (ascii ''official'')
                (ascii ''https://openai.com/gpt5'')], [])"
    by code_simp
  show ?thesis by (intro conjI 1 2 3 4 5 6 7 8 9 10 11 12 13 14 15 16 17)
qed

subsection \<open>C4: exclude keywords\<close>



subsection \<open>C5: the final sort\<close>

lemma sort_rank_table:
  "sort_rank a =
     (if a_category a = ascii ''official'' then 0
      else if a_category a = ascii ''domestic'' then 1
      else if a_category a = ascii ''international'' then 2
      else if a_category a = ascii ''tech'' then 3
      else if a_category a = ascii ''reddit'' then 4
      else if a_category a = ascii ''industry'' then 5
      else if a_category a = ascii ''other'' then 6
      else 99)"
  by (simp add: sort_rank_def category_order_def)

lemma filter_category_sort:
  "filter (\<lambda>a. a_category a = c) (sort_key sort_rank xs) = filter (\<lambda>a. a_category a = c) xs"
proof -
  define k where "k = (case map_of category_order c of Some r \<Rightarrow> r | None \<Rightarrow> 99)"
  have r: "a_category a = c \<Longrightarrow> sort_rank a = k" for a
    by (simp add: k_def sort_rank_def)
  have "filter (\<lambda>a. a_category a = c) ys
          = filter (\<lambda>a. a_category a = c) (filter (\<lambda>a. sort_rank a = k) ys)" for ys
    by (auto simp: r intro: filter_cong)
  then show ?thesis by (metis sort_key_stable)
qed

text \<open>
  C5. The list a run returns is the list of articles the loops have gathered, sorted by the
  priority of the category: 0 to 6 for \<^verbatim>\<open>official\<close>, \<^verbatim>\<open>domestic\<close>,
  \<^verbatim>\<open>international\<close>, \<^verbatim>\<open>tech\<close>, \<^verbatim>\<open>reddit\<close>, \<^verbatim>\<open>industry\<close>, \<^verbatim>\<open>other\<close>,
  and 99 for any other category. It has the same articles, in ascending priority, and the
  articles of one priority, hence those of one category, are in the order they had before
  the sort.
\<close>

theorem sorted_by_category_priority:
  assumes "collect_articles config target_date completed = Inr (arts, errs)"
  shows "\<exists>cutoff st.
           cutoff_time config target_date = Inr cutoff
           \<and> process_futures cutoff (getattr (cfg_keywords config) [])
                 (getattr (cfg_exclude_keywords config) []) completed
                 \<lparr>articles = [], errors = [], seen_urls = {}\<rparr> = Inr st
           \<and> sorted (map sort_rank arts)
           \<and> mset arts = mset (articles st)
           \<and> (\<forall>k. filter (\<lambda>a. sort_rank a = k) arts
                      = filter (\<lambda>a. sort_rank a = k) (articles st))
           \<and> (\<forall>c. filter (\<lambda>a. a_category a = c) arts
                      = filter (\<lambda>a. a_category a = c) (articles st))
           \<and> (\<forall>a. sort_rank a =
                 (if a_category a = ascii ''official'' then 0
                  else if a_category a = ascii ''domestic'' then 1
                  else if a_category a = ascii ''international'' then 2
                  else if a_category a = ascii ''tech'' then 3
                  else if a_category a = ascii ''reddit'' then 4
                  else if a_category a = ascii ''industry'' then 5
                  else if a_category a = ascii ''other'' then 6
                  else 99))"
proof -
  from collect_articles_cases [OF assms] obtain cutoff st where
    c: "cutoff_time config target_date = Inr cutoff" and
    p: "process_futures cutoff (getattr (cfg_keywords config) [])
          (getattr (cfg_exclude_keywords config) []) completed
          \<lparr>articles = [], errors = [], seen_urls = {}\<rparr> = Inr st" and
    a: "arts = sort_key sort_rank (articles st)"
    by blast
  have "sorted (map sort_rank arts)" by (simp add: a)
  moreover have "mset arts = mset (articles st)" by (simp add: a)
  moreover have "\<forall>k. filter (\<lambda>a. sort_rank a = k) arts
                      = filter (\<lambda>a. sort_rank a = k) (articles st)"
    by (simp add: a sort_key_stable)
  moreover have "\<forall>c. filter (\<lambda>a. a_category a = c) arts
                      = filter (\<lambda>a. a_category a = c) (articles st)"
    by (simp add: a filter_category_sort)
  ultimately show ?thesis using c p sort_rank_table by blast
qed

theorem sorted_by_category_priority_witness:
  "as_completed config_mixed run_mixed
   \<and> collect_articles config_mixed noon run_mixed = Inr (sorted_mixed, [])
   \<and> sorted (map sort_rank sorted_mixed)
   \<and> map sort_rank sorted_mixed = [0, 4, 6, 99, 99, 99]
   \<and> filter (\<lambda>a. a_category a = ascii ''blog'') sorted_mixed
       = [article_gpt (ascii ''Zine'') (ascii ''blog'') (ascii ''u1''),
          article_gpt (ascii ''Zine'') (ascii ''blog'') (ascii ''u6'')]"
proof -
  have order: "as_completed config_mixed run_mixed"
    by code_simp
  have run: "collect_articles config_mixed noon run_mixed = Inr (sorted_mixed, [])"
    by code_simp
  from sorted_by_category_priority [OF run]
  have 1: "sorted (map sort_rank sorted_mixed)" by (elim exE conjE)
  have 2: "map sort_rank sorted_mixed = [0, 4, 6, 99, 99, 99]"
    by code_simp
  have 3: "filter (\<lambda>a. a_category a = ascii ''blog'') sorted_mixed
       = [article_gpt (ascii ''Zine'') (ascii ''blog'') (ascii ''u1''),
          article_gpt (ascii ''Zine'') (ascii ''blog'') (ascii ''u6'')]"
    by code_simp
  show ?thesis by (intro conjI order run 1 2 3)
qed

subsection \<open>C6: a category outside the table\<close>

text \<open>
  C6, as the specification states it, fails: a category outside the table is not treated
  as \<^verbatim>\<open>other\<close>. The category \<^verbatim>\<open>blog\<close> sorts with key 99 and \<^verbatim>\<open>other\<close> with key 6,
  so an article of \<^verbatim>\<open>blog\<close> that precedes one of \<^verbatim>\<open>other\<close> is moved behind it; and
  its label is \<^verbatim>\<open>blog\<close> itself, not the label of \<^verbatim>\<open>other\<close>.
\<close>

theorem unknown_category_as_other_counterexample:
  "sort_rank (article_gpt (ascii ''Zine'') (ascii ''blog'') (ascii ''u1'')) = 99
   \<and> sort_rank (article_gpt (ascii ''Zine'') (ascii ''other'') (ascii ''u1'')) = 6
   \<and> sort_key sort_rank
        [article_gpt (ascii ''Zine'') (ascii ''blog'') (ascii ''u1''),
         article_gpt (ascii ''Mirror'') (ascii ''other'') (ascii ''u2'')]
      = [article_gpt (ascii ''Mirror'') (ascii ''other'') (ascii ''u2''),
         article_gpt (ascii ''Zine'') (ascii ''blog'') (ascii ''u1'')]
   \<and> category_label (ascii ''blog'') = ascii ''blog''
   \<and> category_label (ascii ''other'') = [128203, 32, 12381, 12398, 20182]
   \<and> category_label (ascii ''blog'') \<noteq> category_label (ascii ''other'')"
  by code_simp

text \<open>
  C6, amended. An article whose category is outside the table has the sort key 99, which
  puts it behind every article of a category of the table, \<^verbatim>\<open>other\<close> included, and
  its label is the category string itself.
\<close>

theorem unknown_category_rank_and_label:
  assumes "a_category a \<notin> {ascii ''official'', ascii ''domestic'', ascii ''international'',
             ascii ''tech'', ascii ''reddit'', ascii ''industry'', ascii ''other''}"
  shows "sort_rank a = 99
         \<and> category_label (a_category a) = a_category a
         \<and> (\<forall>b. a_category b \<in> {ascii ''official'', ascii ''domestic'',
                    ascii ''international'', ascii ''tech'', ascii ''reddit'',
                    ascii ''industry'', ascii ''other''} \<longrightarrow> sort_rank b < sort_rank a)"
proof (intro conjI allI impI)
  show r: "sort_rank a = 99"
    using assms by (simp add: sort_rank_table)
  show "category_label (a_category a) = a_category a"
    using assms by (simp add: category_label_def labels_def)
  fix b :: article
  assume "a_category b \<in> {ascii ''official'', ascii ''domestic'',
                    ascii ''international'', ascii ''tech'', ascii ''reddit'',
                    ascii ''industry'', ascii ''other''}"
  then have "sort_rank b \<le> 6" by (auto simp: sort_rank_table)
  with r show "sort_rank b < sort_rank a" by simp
qed

theorem unknown_category_rank_and_label_witness:
  "a_category (article_gpt (ascii ''Zine'') (ascii ''blog'') (ascii ''u1''))
     \<notin> {ascii ''official'', ascii ''domestic'', ascii ''international'',
             ascii ''tech'', ascii ''reddit'', ascii ''industry'', ascii ''other''}
   \<and> sort_rank (article_gpt (ascii ''Zine'') (ascii ''blog'') (ascii ''u1'')) = 99
   \<and> category_label (ascii ''blog'') = ascii ''blog''
   \<and> sort_rank (article_gpt (ascii ''Mirror'') (ascii ''other'') (ascii ''u2''))
       < sort_rank (article_gpt (ascii ''Zine'') (ascii ''blog'') (ascii ''u1''))"
proof -
  let ?a = "article_gpt (ascii ''Zine'') (ascii ''blog'') (ascii ''u1'')"
  let ?b = "article_gpt (ascii ''Mirror'') (ascii ''other'') (ascii ''u2'')"
  have h: "a_category ?a
     \<notin> {ascii ''official'', ascii ''domestic'', ascii ''international'',
             ascii ''tech'', ascii ''reddit'', ascii ''industry'', ascii ''other''}"
    by code_simp
  have c: "a_category ?a = ascii ''blog''" by (simp add: article_gpt_def)
  have b: "a_category ?b \<in> {ascii ''official'', ascii ''domestic'', ascii ''international'',
             ascii ''tech'', ascii ''reddit'', ascii ''industry'', ascii ''other''}"
    by (simp add: article_gpt_def)
  note t = unknown_category_rank_and_label [OF h]
  from t have 1: "sort_rank ?a = 99" by (rule conjunct1)
  from t have 2: "category_label (ascii ''blog'') = ascii ''blog''"
    unfolding c by (elim conjE)
  from t b have 3: "sort_rank ?b < sort_rank ?a" by (elim conjE allE impE)
  show ?thesis by (intro conjI h 1 2 3)
qed

subsection \<open>C7: a failing fetch\<close>

lemma process_entry_errors:
  "process_entry c k x fc n e (st\<lparr>errors := er\<rparr>)
     = map_sum id (\<lambda>s. s\<lparr>errors := er\<rparr>) (process_entry c k x fc n e st)"
  by (simp add: process_entry_def Let_def split: sum.splits)

lemma process_entries_errors:
  "process_entries c k x fc n es (st\<lparr>errors := er\<rparr>)
     = map_sum id (\<lambda>s. s\<lparr>errors := er\<rparr>) (process_entries c k x fc n es st)"
proof (induction es arbitrary: st)
  case Nil
  then show ?case by simp
next
  case (Cons e es)
  show ?case
    by (cases "process_entry c k x fc n e st") (simp_all add: process_entry_errors Cons.IH)
qed

lemma process_future_errors:
  "\<exists>er'. process_future c k x f (st\<lparr>errors := er\<rparr>)
           = map_sum id (\<lambda>s. s\<lparr>errors := er'\<rparr>) (process_future c k x f st)"
proof -
  obtain fc oc where f: "f = (fc, oc)" by (cases f)
  obtain name es err where r: "fetch_single_feed fc oc = (name, es, err)"
    by (cases "fetch_single_feed fc oc") auto
  show ?thesis
  proof (cases "\<exists>msg. err = Some msg \<and> msg \<noteq> []")
    case True
    then obtain msg where "err = Some msg" "msg \<noteq> []" by blast
    then have "process_future c k x f (st\<lparr>errors := er\<rparr>)
           = map_sum id (\<lambda>s. s\<lparr>errors := er @ [\<lparr>err_name = name, err_error = msg\<rparr>]\<rparr>)
               (process_future c k x f st)"
      by (simp add: process_future_def f r)
    then show ?thesis by blast
  next
    case False
    then have "process_future c k x f s = process_entries c k x fc name es s" for s
      by (auto simp: process_future_def f r split: option.splits)
    then show ?thesis using process_entries_errors by metis
  qed
qed

lemma process_futures_errors:
  "\<exists>er'. process_futures c k x fs (st\<lparr>errors := er\<rparr>)
           = map_sum id (\<lambda>s. s\<lparr>errors := er'\<rparr>) (process_futures c k x fs st)"
proof (induction fs arbitrary: st er)
  case Nil
  show ?case by (intro exI [of _ er]) simp
next
  case (Cons f fs)
  obtain er1 where 1: "process_future c k x f (st\<lparr>errors := er\<rparr>)
           = map_sum id (\<lambda>s. s\<lparr>errors := er1\<rparr>) (process_future c k x f st)"
    using process_future_errors by blast
  show ?case
  proof (cases "process_future c k x f st")
    case (Inl e)
    with 1 show ?thesis by simp
  next
    case (Inr s1)
    from Cons.IH [where st = s1 and er = er1] obtain er2 where
      "process_futures c k x fs (s1\<lparr>errors := er1\<rparr>)
           = map_sum id (\<lambda>s. s\<lparr>errors := er2\<rparr>) (process_futures c k x fs s1)"
      by blast
    with 1 Inr show ?thesis by (intro exI [of _ er2]) (simp add: id_def)
  qed
qed

lemma process_futures_append:
  "process_futures c k x (fs @ gs) st =
     (case process_futures c k x fs st of Inl e \<Rightarrow> Inl e
      | Inr s \<Rightarrow> process_futures c k x gs s)"
  by (induction fs arbitrary: st) (auto split: sum.splits)

lemma failed_future:
  assumes "snd (snd (fetch_single_feed fc oc)) \<noteq> None"
  shows "\<exists>er. process_future c k x (fc, oc) st = Inr (st\<lparr>errors := er\<rparr>)"
proof -
  from assms obtain msg where
    r: "fetch_single_feed fc oc = (fc_name fc, [], Some msg)"
    by (auto simp: fetch_single_feed_def Let_def split: parse_outcome.splits if_splits)
  show ?thesis
  proof (cases "msg = []")
    case True
    then have "process_future c k x (fc, oc) st = Inr (st\<lparr>errors := errors st\<rparr>)"
      by (simp add: process_future_def r)
    then show ?thesis by blast
  next
    case False
    then have "process_future c k x (fc, oc) st
          = Inr (st\<lparr>errors := errors st @ [\<lparr>err_name = fc_name fc, err_error = msg\<rparr>]\<rparr>)"
      by (simp add: process_future_def r)
    then show ?thesis by blast
  qed
qed

lemma failed_future_run:
  assumes "snd (snd (fetch_single_feed fc oc)) \<noteq> None"
  shows "map_sum id articles (process_futures c k x (pre @ (fc, oc) # post) st)
         = map_sum id articles (process_futures c k x (pre @ post) st)"
proof (cases "process_futures c k x pre st")
  case (Inl e)
  then show ?thesis by (simp add: process_futures_append)
next
  case (Inr s)
  from failed_future [OF assms] obtain er where
    1: "process_future c k x (fc, oc) s = Inr (s\<lparr>errors := er\<rparr>)" by blast
  obtain er' where 2: "process_futures c k x post (s\<lparr>errors := er\<rparr>)
           = map_sum id (\<lambda>s. s\<lparr>errors := er'\<rparr>) (process_futures c k x post s)"
    using process_futures_errors by blast
  show ?thesis
    by (cases "process_futures c k x post s") (simp_all add: process_futures_append Inr 1 2)
qed

lemma collect_articles_cong:
  assumes "\<And>c k x s. map_sum id articles (process_futures c k x fs s)
                       = map_sum id articles (process_futures c k x gs s)"
  shows "map_sum id fst (collect_articles config target_date fs)
         = map_sum id fst (collect_articles config target_date gs)"
proof (cases "cutoff_time config target_date")
  case (Inl e)
  then show ?thesis by (simp add: collect_articles_def)
next
  case (Inr c)
  let ?k = "getattr (cfg_keywords config) []"
  let ?x = "getattr (cfg_exclude_keywords config) []"
  let ?s = "\<lparr>articles = [], errors = [], seen_urls = {}\<rparr>"
  from assms have "map_sum id articles (process_futures c ?k ?x fs ?s)
                       = map_sum id articles (process_futures c ?k ?x gs ?s)" .
  then show ?thesis
    by (cases "process_futures c ?k ?x fs ?s"; cases "process_futures c ?k ?x gs ?s")
       (simp_all add: collect_articles_def Inr)
qed

text \<open>
  C7. \<^verbatim>\<open>fetch_single_feed\<close> returns a triple in every case. When \<^verbatim>\<open>feedparser.parse\<close>
  returns, the triple holds no entries and the text \<^verbatim>\<open>Parse error: ...\<close> exactly when
  \<^verbatim>\<open>bozo\<close> is set and there is no entry, and the entries with no error otherwise; when
  an exception is raised inside the \<^verbatim>\<open>try\<close> block, the triple holds no entries and the
  text of the exception. A fetch that returns an error leaves the articles and the seen
  URLs of the run as they are: the run with it has the articles of the run without it,
  and raises only if that one raises.
\<close>

theorem fetch_failures_are_values:
  "fetch_single_feed feed_config (Parsed bozo bozo_exception entries)
     = (if bozo \<and> entries = []
        then (fc_name feed_config, [], Some (ascii ''Parse error: '' @ bozo_exception))
        else (fc_name feed_config, entries, None))
   \<and> (snd (snd (fetch_single_feed feed_config (Parsed bozo bozo_exception entries))) \<noteq> None
        \<longleftrightarrow> bozo \<and> entries = [])
   \<and> fetch_single_feed feed_config (Raised msg) = (fc_name feed_config, [], Some msg)
   \<and> (snd (snd (fetch_single_feed feed_config outcome)) \<noteq> None \<longrightarrow>
        (\<exists>errs'. process_future cutoff keywords exclude_keywords (feed_config, outcome) st
                   = Inr (st\<lparr>errors := errs'\<rparr>))
        \<and> map_sum id fst (collect_articles config target_date (pre @ (feed_config, outcome) # post))
            = map_sum id fst (collect_articles config target_date (pre @ post)))"
proof (intro conjI impI)
  show "fetch_single_feed feed_config (Parsed bozo bozo_exception entries)
     = (if bozo \<and> entries = []
        then (fc_name feed_config, [], Some (ascii ''Parse error: '' @ bozo_exception))
        else (fc_name feed_config, entries, None))"
    by (simp add: fetch_single_feed_def Let_def)
  show "snd (snd (fetch_single_feed feed_config (Parsed bozo bozo_exception entries))) \<noteq> None
        \<longleftrightarrow> bozo \<and> entries = []"
    by (simp add: fetch_single_feed_def Let_def)
  show "fetch_single_feed feed_config (Raised msg) = (fc_name feed_config, [], Some msg)"
    by (simp add: fetch_single_feed_def Let_def)
next
  assume f: "snd (snd (fetch_single_feed feed_config outcome)) \<noteq> None"
  show "\<exists>errs'. process_future cutoff keywords exclude_keywords (feed_config, outcome) st
                   = Inr (st\<lparr>errors := errs'\<rparr>)"
    by (rule failed_future [OF f])
  have "map_sum id articles (process_futures c k x (pre @ (feed_config, outcome) # post) s)
         = map_sum id articles (process_futures c k x (pre @ post) s)" for c k x s
    by (rule failed_future_run [OF f])
  then show "map_sum id fst (collect_articles config target_date (pre @ (feed_config, outcome) # post))
            = map_sum id fst (collect_articles config target_date (pre @ post))"
    by (rule collect_articles_cong)
qed

theorem fetch_failures_are_values_witness:
  "fetch_single_feed feed_bare (Raised (ascii ''timed out''))
     = (ascii ''Mirror'', [], Some (ascii ''timed out''))
   \<and> fetch_single_feed feed_bare (Parsed True (ascii ''syntax error'') [])
     = (ascii ''Mirror'', [], Some (ascii ''Parse error: syntax error''))
   \<and> fetch_single_feed feed_bare (Parsed True (ascii ''syntax error'') [entry_gpt])
     = (ascii ''Mirror'', [entry_gpt], None)
   \<and> snd (snd (fetch_single_feed feed_bare (Raised (ascii ''timed out'')))) \<noteq> None
   \<and> collect_articles config_both noon
        [(feed_bare, Raised (ascii ''timed out'')),
         (feed_official, Parsed False [] [entry_gpt])]
      = Inr ([article_gpt (ascii ''OpenAI Blog'') (ascii ''official'')
                (ascii ''https://openai.com/gpt5'')],
             [\<lparr>err_name = ascii ''Mirror'', err_error = ascii ''timed out''\<rparr>])
   \<and> map_sum id fst (collect_articles config_both noon
        [(feed_bare, Raised (ascii ''timed out'')),
         (feed_official, Parsed False [] [entry_gpt])])
      = map_sum id fst (collect_articles config_both noon
          [(feed_official, Parsed False [] [entry_gpt])])"
proof -
  note t = fetch_failures_are_values [of feed_bare _ _ _ "ascii ''timed out''"
      "Raised (ascii ''timed out'')" _ _ _ _ config_both noon "[]"
      "[(feed_official, Parsed False [] [entry_gpt])]"]
  have 1: "fetch_single_feed feed_bare (Raised (ascii ''timed out''))
     = (ascii ''Mirror'', [], Some (ascii ''timed out''))"
    by code_simp
  have 2: "fetch_single_feed feed_bare (Parsed True (ascii ''syntax error'') [])
     = (ascii ''Mirror'', [], Some (ascii ''Parse error: syntax error''))"
    by code_simp
  have 3: "fetch_single_feed feed_bare (Parsed True (ascii ''syntax error'') [entry_gpt])
     = (ascii ''Mirror'', [entry_gpt], None)"
    by code_simp
  have 4: "snd (snd (fetch_single_feed feed_bare (Raised (ascii ''timed out'')))) \<noteq> None"
    by (simp add: 1)
  have 5: "collect_articles config_both noon
        [(feed_bare, Raised (ascii ''timed out'')),
         (feed_official, Parsed False [] [entry_gpt])]
      = Inr ([article_gpt (ascii ''OpenAI Blog'') (ascii ''official'')
                (ascii ''https://openai.com/gpt5'')],
             [\<lparr>err_name = ascii ''Mirror'', err_error = ascii ''timed out''\<rparr>])"
    by code_simp
  from t [THEN conjunct2, THEN conjunct2, THEN conjunct2, THEN mp, OF 4]
  have 6: "map_sum id fst (collect_articles config_both noon
        [(feed_bare, Raised (ascii ''timed out'')),
         (feed_official, Parsed False [] [entry_gpt])])
      = map_sum id fst (collect_articles config_both noon
          [(feed_official, Parsed False [] [entry_gpt])])"
    by simp
  show ?thesis by (intro conjI 1 2 3 4 5 6)
qed

subsection \<open>C8: the checklist lines of the digest\<close>

lemma prefix_codes: "ascii ''- [ ] ['' = [45, 32, 91, 32, 93, 32, 91]"
  by (simp add: ascii_def)

lemma parse_checklist_line:
  assumes "93 \<notin> set (a_url a)" and "124 \<notin> set (a_source a)"
  shows "parse_checklist_line (checklist_line a) = (a_title a, a_source a, a_url a)"
proof -
  let ?T = "a_title a" and ?S = "a_source a" and ?U = "a_url a"
  have line: "checklist_line a
      = [45, 32, 91, 32, 93, 32, 91] @ (?T @ [32, 124, 32] @ ?S @ [93, 40] @ ?U) @ [41]"
    by (simp add: checklist_line_def ascii_def)
  have body: "rev (butlast (drop 7 (checklist_line a)))
      = (rev ?U @ [40]) @ 93 # (rev ?S @ [32]) @ 124 # 32 # rev ?T"
    unfolding line by (simp add: butlast_append)
  have u: "\<forall>c \<in> set (rev ?U @ [40]). c \<noteq> 93" using assms(1) by auto
  have s: "\<forall>c \<in> set (rev ?S @ [32]). c \<noteq> 124" using assms(2) by auto
  have 1: "takeWhile (\<lambda>c. c \<noteq> 93) (rev (butlast (drop 7 (checklist_line a)))) = rev ?U @ [40]"
    unfolding body using u by (subst takeWhile_append2) auto
  have 2: "dropWhile (\<lambda>c. c \<noteq> 93) (rev (butlast (drop 7 (checklist_line a))))
      = 93 # (rev ?S @ [32]) @ 124 # 32 # rev ?T"
    unfolding body using u by (subst dropWhile_append2) auto
  have 3: "takeWhile (\<lambda>c. c \<noteq> 124) (rev ?S @ 32 # 124 # 32 # rev ?T) = rev ?S @ [32]"
    using takeWhile_append2 [of "rev ?S @ [32]" "\<lambda>c. c \<noteq> 124" "124 # 32 # rev ?T"] s
    by simp
  have 4: "dropWhile (\<lambda>c. c \<noteq> 124) (rev ?S @ 32 # 124 # 32 # rev ?T) = 124 # 32 # rev ?T"
    using dropWhile_append2 [of "rev ?S @ [32]" "\<lambda>c. c \<noteq> 124" "124 # 32 # rev ?T"] s
    by simp
  show ?thesis
    unfolding parse_checklist_line_def Let_def 1 2 by (simp add: 3 4)
qed

lemma split_lines_line: "10 \<notin> set l \<Longrightarrow> split_lines l = [l]"
  by (induction l) auto

lemma split_lines_append:
  "10 \<notin> set l \<Longrightarrow> split_lines (l @ 10 # rest) = l # split_lines rest"
  by (induction l) auto

lemma split_join_lines:
  assumes "ls \<noteq> []" and "\<forall>l \<in> set ls. 10 \<notin> set l"
  shows "split_lines (join_lines ls) = ls"
  using assms
proof (induction ls rule: join_lines.induct)
  case 1
  then show ?case by simp
next
  case (2 l)
  then show ?case by (simp add: split_lines_line)
next
  case (3 l v va)
  then show ?case by (simp add: split_lines_append)
qed



lemma str_of_nat_digits: "set (str_of_nat n) \<subseteq> {48..57}"
proof (induction n rule: str_of_nat.induct)
  case (1 n)
  show ?case
  proof (cases "n < 10")
    case True
    then show ?thesis by (subst str_of_nat.simps) simp
  next
    case False
    have "n mod 10 < 10" by simp
    then have "48 + int (n mod 10) \<in> {48..57}" by auto
    with 1 False show ?thesis by (subst str_of_nat.simps) simp
  qed
qed

lemma no_nl_str_of_nat: "10 \<notin> set (str_of_nat n)"
  using str_of_nat_digits [of n] by auto

lemma no_nl_pad2: "10 \<notin> set (pad2 i)"
  by (simp add: pad2_def no_nl_str_of_nat)

lemma no_nl_strftime: "10 \<notin> set (strftime_ymd_hm d)"
  by (simp add: strftime_ymd_hm_def ascii_def no_nl_str_of_nat no_nl_pad2 split: prod.splits)

lemma no_nl_weekday: "10 \<notin> set (WEEKDAY_JA ! nat (weekday d))"
proof -
  have "nat (weekday d) < length WEEKDAY_JA"
    by (simp add: weekday_def WEEKDAY_JA_def)
  then have "WEEKDAY_JA ! nat (weekday d) \<in> set WEEKDAY_JA" by (rule nth_mem)
  then show ?thesis by (auto simp: WEEKDAY_JA_def)
qed

lemma no_nl_label: "10 \<notin> set c \<Longrightarrow> 10 \<notin> set (category_label c)"
proof -
  assume c: "10 \<notin> set c"
  show ?thesis
  proof (cases "map_of labels c")
    case None
    with c show ?thesis by (simp add: category_label_def)
  next
    case (Some l)
    then have "(c, l) \<in> set labels" by (rule map_of_SomeD)
    then have "10 \<notin> set l" by (auto simp: labels_def)
    with Some show ?thesis by (simp add: category_label_def)
  qed
qed

lemma startswith_append: "startswith (p @ xs) p"
  by (induction p) auto

lemma is_checklist_line_checklist_line: "is_checklist_line (checklist_line a)"
  by (simp add: is_checklist_line_def checklist_line_def startswith_append)

lemma not_checklist:
  "\<not> is_checklist_line []"
  "c \<noteq> 45 \<Longrightarrow> \<not> is_checklist_line (c # cs)"
  "\<not> is_checklist_line (ascii ''## '' @ xs)"
  "\<not> is_checklist_line (ascii ''      '' @ xs)"
  "\<not> is_checklist_line (ascii ''---'')"
  "\<not> is_checklist_line (error_line err)"
  by (simp_all add: is_checklist_line_def prefix_codes error_line_def, simp_all add: ascii_def)

lemma filter_article_lines:
  "filter is_checklist_line (article_lines current arts) = map checklist_line arts"
  by (induction arts arbitrary: current)
     (simp_all add: is_checklist_line_checklist_line not_checklist)

lemma no_nl_article_lines:
  assumes "\<forall>a \<in> set arts. unbroken a"
  shows "\<forall>l \<in> set (article_lines current arts). 10 \<notin> set l"
  using assms
proof (induction arts arbitrary: current)
  case Nil
  then show ?case by simp
next
  case (Cons a arts)
  then have a: "unbroken a" and r: "\<forall>a \<in> set arts. unbroken a" by simp_all
  have h: "10 \<notin> set (ascii ''## '' @ category_label (a_category a))"
    using a by (simp add: unbroken_def no_nl_label) (simp add: ascii_def)
  have c: "10 \<notin> set (checklist_line a)"
    using a by (simp add: unbroken_def checklist_line_def) (simp add: ascii_def)
  have s: "10 \<notin> set (ascii ''      '' @ take 150 (a_summary a))"
    using a by (auto simp: unbroken_def ascii_def dest: in_set_takeD)
  from Cons.IH [OF r] h c s show ?case by auto
qed

lemma filter_header_lines:
  "filter is_checklist_line (header_lines arts errs target_date now) = []"
  by (simp add: header_lines_def Let_def not_checklist split: prod.splits)

lemma filter_error_lines: "filter is_checklist_line (error_lines errs) = []"
proof -
  have "filter is_checklist_line (map error_line errs) = []"
    by (induction errs) (simp_all add: not_checklist)
  then show ?thesis by (simp add: error_lines_def not_checklist)
qed

lemma filter_digest_lines:
  "filter is_checklist_line (digest_lines config arts errs target_date now)
     = map checklist_line arts"
  by (simp add: digest_lines_def filter_header_lines filter_error_lines filter_article_lines
                not_checklist)

lemma no_nl_header_lines:
  "\<forall>l \<in> set (header_lines arts errs target_date now). 10 \<notin> set l"
  by (auto simp: header_lines_def Let_def no_nl_str_of_nat no_nl_strftime no_nl_weekday
                 ascii_def split: prod.splits)

lemma no_nl_error_lines:
  assumes "\<forall>e \<in> set errs. 10 \<notin> set (err_name e) \<and> 10 \<notin> set (err_error e)"
  shows "\<forall>l \<in> set (error_lines errs). 10 \<notin> set l"
  using assms by (auto simp: error_lines_def error_line_def ascii_def)

lemma no_nl_digest_lines:
  assumes "\<forall>a \<in> set arts. unbroken a"
    and "\<forall>e \<in> set errs. 10 \<notin> set (err_name e) \<and> 10 \<notin> set (err_error e)"
  shows "\<forall>l \<in> set (digest_lines config arts errs target_date now). 10 \<notin> set l"
  using no_nl_header_lines [of arts errs target_date now]
    no_nl_error_lines [OF assms(2)] no_nl_article_lines [OF assms(1), of "[]"]
  by (auto simp: digest_lines_def)

lemma digest_lines_nonempty: "digest_lines config arts errs target_date now \<noteq> []"
  by (simp add: digest_lines_def header_lines_def Let_def split: prod.splits)

lemma split_generate_markdown:
  assumes "\<forall>a \<in> set arts. unbroken a"
    and "\<forall>e \<in> set errs. 10 \<notin> set (err_name e) \<and> 10 \<notin> set (err_error e)"
  shows "split_lines (generate_markdown config arts errs target_date now)
           = digest_lines config arts errs target_date now"
  unfolding generate_markdown_def
  by (intro split_join_lines digest_lines_nonempty no_nl_digest_lines assms)

lemma article_lines_append:
  "\<exists>before current'. article_lines current (pre @ a # post)
     = before @ [checklist_line a]
         @ (if a_summary a \<noteq> [] then [ascii ''      '' @ take 150 (a_summary a)] else [])
         @ [[]] @ article_lines current' post"
proof (induction pre arbitrary: current)
  case Nil
  show ?case
    by (intro exI [of _ "if a_category a \<noteq> current
                          then [ascii ''## '' @ category_label (a_category a), []] else []"]
              exI [of _ "if a_category a \<noteq> current then a_category a else current"])
       simp
next
  case (Cons b pre)
  let ?c = "if a_category b \<noteq> current then a_category b else current"
  from Cons [of ?c] obtain before current' where
    1: "article_lines ?c (pre @ a # post)
     = before @ [checklist_line a]
         @ (if a_summary a \<noteq> [] then [ascii ''      '' @ take 150 (a_summary a)] else [])
         @ [[]] @ article_lines current' post"
    by blast
  let ?b = "(if a_category b \<noteq> current
             then [ascii ''## '' @ category_label (a_category b), []] else [])
            @ [checklist_line b]
            @ (if a_summary b \<noteq> [] then [ascii ''      '' @ take 150 (a_summary b)] else [])
            @ [[]]"
  have "article_lines current ((b # pre) @ a # post)
          = (?b @ before) @ [checklist_line a]
         @ (if a_summary a \<noteq> [] then [ascii ''      '' @ take 150 (a_summary a)] else [])
         @ [[]] @ article_lines current' post"
    using 1 by simp
  then show ?case by blast
qed

text \<open>
  C8, as the specification states it, fails: titles and sources are printed as they are,
  so two articles with different titles and sources can have the same checklist line and
  the same digest, and no reader of the digest recovers the title and the source of both.
\<close>

theorem checklist_round_trip_counterexample:
  "checklist_line article_left = ascii ''- [ ] [GPT-5 | OpenAI | News](u1)''
   \<and> checklist_line article_right = ascii ''- [ ] [GPT-5 | OpenAI | News](u1)''
   \<and> (a_title article_left, a_source article_left, a_url article_left)
       = (ascii ''GPT-5 | OpenAI'', ascii ''News'', ascii ''u1'')
   \<and> (a_title article_right, a_source article_right, a_url article_right)
       = (ascii ''GPT-5'', ascii ''OpenAI | News'', ascii ''u1'')
   \<and> (a_title article_left, a_source article_left, a_url article_left)
       \<noteq> (a_title article_right, a_source article_right, a_url article_right)
   \<and> generate_markdown config_gpt [article_left] [] noon noon
       = generate_markdown config_gpt [article_right] [] noon noon"
  by code_simp

text \<open>
  C8, amended. The renderer builds a list of lines and joins it with line breaks into the
  digest. Among the lines it builds, the checklist lines are the lines
  \<^verbatim>\<open>- [ ] [title | source](url)\<close> of the articles, one for each article and in their
  order; in that list the line of an article is followed by six spaces and the first 150
  characters of its summary when the summary is not empty, and then by an empty line. When
  no printed field of an article or of an error holds a line break, splitting the digest at
  the line breaks gives that list back, and the checklist lines of the digest are the lines
  of the articles, in order. When moreover no URL holds \<^verbatim>\<open>]\<close> and no source holds
  \<^verbatim>\<open>|\<close>, reading the checklist lines of the digest gives the title, source and URL of
  every article, in order.
\<close>

theorem digest_checklist_lines:
  "filter is_checklist_line (digest_lines config arts errs target_date now)
     = map checklist_line arts
   \<and> generate_markdown config arts errs target_date now
       = join_lines (digest_lines config arts errs target_date now)
   \<and> (\<exists>before after.
         digest_lines config (pre @ a # post) errs target_date now
           = before @ [checklist_line a]
               @ (if a_summary a \<noteq> [] then [ascii ''      '' @ take 150 (a_summary a)]
                  else [])
               @ [[]] @ after)
   \<and> ((\<forall>a \<in> set arts. unbroken a)
        \<and> (\<forall>e \<in> set errs. 10 \<notin> set (err_name e) \<and> 10 \<notin> set (err_error e)) \<longrightarrow>
        split_lines (generate_markdown config arts errs target_date now)
          = digest_lines config arts errs target_date now
        \<and> filter is_checklist_line
             (split_lines (generate_markdown config arts errs target_date now))
           = map checklist_line arts)
   \<and> ((\<forall>a \<in> set arts. printable a)
        \<and> (\<forall>e \<in> set errs. 10 \<notin> set (err_name e) \<and> 10 \<notin> set (err_error e)) \<longrightarrow>
        map parse_checklist_line
             (filter is_checklist_line
                (split_lines (generate_markdown config arts errs target_date now)))
           = map (\<lambda>a. (a_title a, a_source a, a_url a)) arts)"
proof (intro conjI impI)
  show "filter is_checklist_line (digest_lines config arts errs target_date now)
     = map checklist_line arts"
    by (rule filter_digest_lines)
next
  show "generate_markdown config arts errs target_date now
       = join_lines (digest_lines config arts errs target_date now)"
    by (simp add: generate_markdown_def)
next
  obtain before current' where
    1: "article_lines [] (pre @ a # post)
     = before @ [checklist_line a]
         @ (if a_summary a \<noteq> [] then [ascii ''      '' @ take 150 (a_summary a)] else [])
         @ [[]] @ article_lines current' post"
    using article_lines_append by blast
  have 2: "digest_lines config (pre @ a # post) errs target_date now
          = header_lines (pre @ a # post) errs target_date now
              @ article_lines [] (pre @ a # post) @ error_lines errs"
    by (simp add: digest_lines_def)
  have "digest_lines config (pre @ a # post) errs target_date now
           = (header_lines (pre @ a # post) errs target_date now @ before) @ [checklist_line a]
               @ (if a_summary a \<noteq> [] then [ascii ''      '' @ take 150 (a_summary a)]
                  else [])
               @ [[]] @ (article_lines current' post @ error_lines errs)"
    unfolding 2 1 by simp
  then show "\<exists>before after.
         digest_lines config (pre @ a # post) errs target_date now
           = before @ [checklist_line a]
               @ (if a_summary a \<noteq> [] then [ascii ''      '' @ take 150 (a_summary a)]
                  else [])
               @ [[]] @ after"
    by blast
next
  assume h: "(\<forall>a \<in> set arts. unbroken a)
        \<and> (\<forall>e \<in> set errs. 10 \<notin> set (err_name e) \<and> 10 \<notin> set (err_error e))"
  from h show s: "split_lines (generate_markdown config arts errs target_date now)
          = digest_lines config arts errs target_date now"
    by (intro split_generate_markdown) simp_all
  show "filter is_checklist_line
             (split_lines (generate_markdown config arts errs target_date now))
           = map checklist_line arts"
    by (simp add: s filter_digest_lines)
next
  assume h: "(\<forall>a \<in> set arts. printable a)
        \<and> (\<forall>e \<in> set errs. 10 \<notin> set (err_name e) \<and> 10 \<notin> set (err_error e))"
  then have s: "split_lines (generate_markdown config arts errs target_date now)
          = digest_lines config arts errs target_date now"
    by (intro split_generate_markdown) (simp_all add: printable_def)
  have "map parse_checklist_line (map checklist_line arts)
          = map (\<lambda>a. (a_title a, a_source a, a_url a)) arts"
    using h by (simp add: printable_def parse_checklist_line)
  then show "map parse_checklist_line
             (filter is_checklist_line
                (split_lines (generate_markdown config arts errs target_date now)))
           = map (\<lambda>a. (a_title a, a_source a, a_url a)) arts"
    by (simp add: s filter_digest_lines)
qed

theorem digest_checklist_lines_witness:
  "printable (article_gpt (ascii ''OpenAI Blog'') (ascii ''official'')
               (ascii ''https://openai.com/gpt5''))
   \<and> 10 \<notin> set (ascii ''Mirror'') \<and> 10 \<notin> set (ascii ''timed out'')
   \<and> filter is_checklist_line
        (digest_lines config_gpt
           [article_gpt (ascii ''OpenAI Blog'') (ascii ''official'')
              (ascii ''https://openai.com/gpt5'')]
           [\<lparr>err_name = ascii ''Mirror'', err_error = ascii ''timed out''\<rparr>] noon noon)
      = [ascii ''- [ ] [OpenAI launches GPT-5 | OpenAI Blog](https://openai.com/gpt5)'']
   \<and> filter is_checklist_line
        (split_lines
           (generate_markdown config_gpt
              [article_gpt (ascii ''OpenAI Blog'') (ascii ''official'')
                 (ascii ''https://openai.com/gpt5'')]
              [\<lparr>err_name = ascii ''Mirror'', err_error = ascii ''timed out''\<rparr>]
              noon noon))
      = [ascii ''- [ ] [OpenAI launches GPT-5 | OpenAI Blog](https://openai.com/gpt5)'']
   \<and> map parse_checklist_line
        (filter is_checklist_line
           (split_lines
              (generate_markdown config_gpt
                 [article_gpt (ascii ''OpenAI Blog'') (ascii ''official'')
                    (ascii ''https://openai.com/gpt5'')]
                 [\<lparr>err_name = ascii ''Mirror'', err_error = ascii ''timed out''\<rparr>]
                 noon noon)))
      = [(ascii ''OpenAI launches GPT-5'', ascii ''OpenAI Blog'',
          ascii ''https://openai.com/gpt5'')]
   \<and> unbroken article_right \<and> \<not> printable article_right
   \<and> filter is_checklist_line
        (split_lines (generate_markdown config_gpt [article_right] [] noon noon))
      = [ascii ''- [ ] [GPT-5 | OpenAI | News](u1)'']
   \<and> map parse_checklist_line
        (filter is_checklist_line
           (split_lines (generate_markdown config_gpt [article_right] [] noon noon)))
      \<noteq> [(a_title article_right, a_source article_right, a_url article_right)]
   \<and> \<not> unbroken article_broken
   \<and> filter is_checklist_line (digest_lines config_gpt [article_broken] [] noon noon)
      = [checklist_line article_broken]
   \<and> filter is_checklist_line
        (split_lines (generate_markdown config_gpt [article_broken] [] noon noon))
      = [ascii ''- [ ] [OpenAI launches GPT-5 | A'']
   \<and> filter is_checklist_line
        (split_lines (generate_markdown config_gpt [article_broken] [] noon noon))
      \<noteq> [checklist_line article_broken]"
proof -
  let ?a = "article_gpt (ascii ''OpenAI Blog'') (ascii ''official'')
              (ascii ''https://openai.com/gpt5'')"
  let ?e = "\<lparr>err_name = ascii ''Mirror'', err_error = ascii ''timed out''\<rparr>"
  note t = digest_checklist_lines [of config_gpt "[?a]" "[?e]" noon noon]
  have 1: "printable ?a" by code_simp
  have 2: "10 \<notin> set (ascii ''Mirror'')" "10 \<notin> set (ascii ''timed out'')"
    by (simp_all add: ascii_def)
  have h: "(\<forall>a \<in> set [?a]. printable a)
        \<and> (\<forall>e \<in> set [?e]. 10 \<notin> set (err_name e) \<and> 10 \<notin> set (err_error e))"
    using 1 2 by simp
  have u: "(\<forall>a \<in> set [?a]. unbroken a)
        \<and> (\<forall>e \<in> set [?e]. 10 \<notin> set (err_name e) \<and> 10 \<notin> set (err_error e))"
    using 1 2 by (simp add: printable_def)
  have c: "checklist_line ?a
      = ascii ''- [ ] [OpenAI launches GPT-5 | OpenAI Blog](https://openai.com/gpt5)''"
    by code_simp
  from t [THEN conjunct1]
  have 3: "filter is_checklist_line (digest_lines config_gpt [?a] [?e] noon noon)
      = [ascii ''- [ ] [OpenAI launches GPT-5 | OpenAI Blog](https://openai.com/gpt5)'']"
    by (simp add: c)
  from t [THEN conjunct2, THEN conjunct2, THEN conjunct2, THEN conjunct1, THEN mp, OF u,
      THEN conjunct2]
  have 4: "filter is_checklist_line
        (split_lines (generate_markdown config_gpt [?a] [?e] noon noon))
      = [ascii ''- [ ] [OpenAI launches GPT-5 | OpenAI Blog](https://openai.com/gpt5)'']"
    by (simp add: c)
  have f: "(a_title ?a, a_source ?a, a_url ?a)
      = (ascii ''OpenAI launches GPT-5'', ascii ''OpenAI Blog'',
          ascii ''https://openai.com/gpt5'')"
    by (simp add: article_gpt_def)
  from t [THEN conjunct2, THEN conjunct2, THEN conjunct2, THEN conjunct2, THEN mp, OF h]
  have 5: "map parse_checklist_line
        (filter is_checklist_line
           (split_lines (generate_markdown config_gpt [?a] [?e] noon noon)))
      = [(ascii ''OpenAI launches GPT-5'', ascii ''OpenAI Blog'',
          ascii ''https://openai.com/gpt5'')]"
    by (simp add: f)
  have 6: "unbroken article_right" by code_simp
  have 7: "\<not> printable article_right" by code_simp
  have l: "(\<forall>a \<in> set [article_right]. unbroken a)
        \<and> (\<forall>e \<in> set ([] :: fetch_error list).
              10 \<notin> set (err_name e) \<and> 10 \<notin> set (err_error e))"
    using 6 by simp
  have cl: "checklist_line article_right = ascii ''- [ ] [GPT-5 | OpenAI | News](u1)''"
    by code_simp
  from digest_checklist_lines [of config_gpt "[article_right]" "[]" noon noon,
      THEN conjunct2, THEN conjunct2, THEN conjunct2, THEN conjunct1, THEN mp, OF l,
      THEN conjunct2]
  have 8: "filter is_checklist_line
        (split_lines (generate_markdown config_gpt [article_right] [] noon noon))
      = [ascii ''- [ ] [GPT-5 | OpenAI | News](u1)'']"
    by (simp add: cl)
  have r: "map parse_checklist_line
        (filter is_checklist_line
           (split_lines (generate_markdown config_gpt [article_right] [] noon noon)))
      \<noteq> [(a_title article_right, a_source article_right, a_url article_right)]"
    by code_simp
  have 9: "\<not> unbroken article_broken" by code_simp
  from digest_checklist_lines [of config_gpt "[article_broken]" "[]" noon noon,
      THEN conjunct1]
  have 10: "filter is_checklist_line (digest_lines config_gpt [article_broken] [] noon noon)
      = [checklist_line article_broken]"
    by simp
  have 11: "filter is_checklist_line
        (split_lines (generate_markdown config_gpt [article_broken] [] noon noon))
      = [ascii ''- [ ] [OpenAI launches GPT-5 | A'']"
    by code_simp
  have 12: "filter is_checklist_line
        (split_lines (generate_markdown config_gpt [article_broken] [] noon noon))
      \<noteq> [checklist_line article_broken]"
    by code_simp
  show ?thesis by (intro conjI 1 2 3 4 5 6 7 8 r 9 10 11 12)
qed

subsection \<open>C9: a skipped entry does not mark its URL\<close>

text \<open>
  C9. The loop body either leaves the seen URLs and the articles as they are, or appends
  one article and adds the URL of that article; an entry skipped by the recency check or
  by a keyword check leaves the seen URLs as they are. After the loops the seen URLs are
  the URLs of the articles. So there are runs in which an entry is skipped and a later
  entry with the same link is accepted.
\<close>

theorem seen_urls_follow_accepted:
  "(process_entry cutoff keywords exclude_keywords feed_config name entry st = Inr st' \<longrightarrow>
      (seen_urls st' = seen_urls st \<and> articles st' = articles st)
      \<or> (\<exists>a. accepted cutoff keywords exclude_keywords feed_config name entry a
               \<and> articles st' = articles st @ [a]
               \<and> seen_urls st' = insert (a_url a) (seen_urls st)))
   \<and> (process_entry cutoff keywords exclude_keywords feed_config name entry st = Inr st'
        \<and> parse_entry_date entry = Inr pub_date
        \<and> (too_old pub_date cutoff
             \<or> matches_exclude_keywords (combined_text entry) exclude_keywords
             \<or> \<not> matches_keywords (combined_text entry) keywords) \<longrightarrow>
        seen_urls st' = seen_urls st)
   \<and> (process_futures cutoff keywords exclude_keywords completed
          \<lparr>articles = [], errors = [], seen_urls = {}\<rparr> = Inr st' \<longrightarrow>
        seen_urls st' = set (map a_url (articles st')))
   \<and> (\<exists>config target_date feed_config e1 e2 a.
         e_link e1 = e_link e2
         \<and> collect_articles config target_date [(feed_config, Parsed False [] [e1])]
             = Inr ([], [])
         \<and> collect_articles config target_date [(feed_config, Parsed False [] [e1, e2])]
             = Inr ([a], [])
         \<and> e_link e1 = Some (a_url a))"
proof (intro conjI impI)
  assume "process_entry cutoff keywords exclude_keywords feed_config name entry st = Inr st'"
  from process_entry_cases [OF this]
  show "(seen_urls st' = seen_urls st \<and> articles st' = articles st)
      \<or> (\<exists>a. accepted cutoff keywords exclude_keywords feed_config name entry a
               \<and> articles st' = articles st @ [a]
               \<and> seen_urls st' = insert (a_url a) (seen_urls st))"
    by auto
next
  assume a: "process_entry cutoff keywords exclude_keywords feed_config name entry st = Inr st'
        \<and> parse_entry_date entry = Inr pub_date
        \<and> (too_old pub_date cutoff
             \<or> matches_exclude_keywords (combined_text entry) exclude_keywords
             \<or> \<not> matches_keywords (combined_text entry) keywords)"
  then have "\<not> accepted cutoff keywords exclude_keywords feed_config name entry b" for b
    by (auto simp: accepted_def)
  with a have "st' = st" using process_entry_unchanged by blast
  then show "seen_urls st' = seen_urls st" by simp
next
  assume "process_futures cutoff keywords exclude_keywords completed
          \<lparr>articles = [], errors = [], seen_urls = {}\<rparr> = Inr st'"
  from process_futures_cases [OF this]
  show "seen_urls st' = set (map a_url (articles st'))" by auto
next
  have 1: "e_link entry_stale = e_link entry_gpt"
    by (simp add: entry_stale_def)
  have 2: "collect_articles config_gpt noon [(feed_official, Parsed False [] [entry_stale])]
             = Inr ([], [])"
    by code_simp
  have 3: "collect_articles config_gpt noon
             [(feed_official, Parsed False [] [entry_stale, entry_gpt])]
             = Inr ([article_gpt (ascii ''OpenAI Blog'') (ascii ''official'')
                       (ascii ''https://openai.com/gpt5'')], [])"
    by code_simp
  have 4: "e_link entry_stale = Some (a_url (article_gpt (ascii ''OpenAI Blog'')
             (ascii ''official'') (ascii ''https://openai.com/gpt5'')))"
    by (simp add: entry_stale_def entry_gpt_def article_gpt_def)
  from 1 2 3 4 show "\<exists>config target_date feed_config e1 e2 a.
         e_link e1 = e_link e2
         \<and> collect_articles config target_date [(feed_config, Parsed False [] [e1])]
             = Inr ([], [])
         \<and> collect_articles config target_date [(feed_config, Parsed False [] [e1, e2])]
             = Inr ([a], [])
         \<and> e_link e1 = Some (a_url a)"
    by blast
qed

theorem seen_urls_follow_accepted_witness:
  "process_entry cutoff_noon [ascii ''GPT''] [] feed_official (ascii ''OpenAI Blog'')
     entry_stale empty_state = Inr empty_state
   \<and> parse_entry_date entry_stale
       = Inr (Some \<lparr>dt_local = 63929088000000000, dt_utcoffset = 0\<rparr>)
   \<and> too_old (Some \<lparr>dt_local = 63929088000000000, dt_utcoffset = 0\<rparr>) cutoff_noon
   \<and> seen_urls empty_state = {}
   \<and> process_futures cutoff_noon [ascii ''GPT''] []
        [(feed_official, Parsed False [] [entry_stale, entry_gpt])]
        \<lparr>articles = [], errors = [], seen_urls = {}\<rparr>
      = Inr \<lparr>articles = [article_gpt (ascii ''OpenAI Blog'') (ascii ''official'')
                           (ascii ''https://openai.com/gpt5'')],
             errors = [], seen_urls = {ascii ''https://openai.com/gpt5''}\<rparr>"
proof -
  let ?d = "\<lparr>dt_local = 63929088000000000, dt_utcoffset = 0\<rparr>"
  have 1: "process_entry cutoff_noon [ascii ''GPT''] [] feed_official (ascii ''OpenAI Blog'')
     entry_stale empty_state = Inr empty_state"
    by code_simp
  have 2: "parse_entry_date entry_stale = Inr (Some ?d)"
    by code_simp
  have 3: "too_old (Some ?d) cutoff_noon"
    by code_simp
  have 4: "seen_urls empty_state = {}" by (simp add: empty_state_def)
  have 5: "process_futures cutoff_noon [ascii ''GPT''] []
        [(feed_official, Parsed False [] [entry_stale, entry_gpt])]
        \<lparr>articles = [], errors = [], seen_urls = {}\<rparr>
      = Inr \<lparr>articles = [article_gpt (ascii ''OpenAI Blog'') (ascii ''official'')
                           (ascii ''https://openai.com/gpt5'')],
             errors = [], seen_urls = {ascii ''https://openai.com/gpt5''}\<rparr>"
    by code_simp
  from seen_urls_follow_accepted [THEN conjunct2, THEN conjunct2, THEN conjunct1, THEN mp,
      OF 5] 1 2 3 4 5
  show ?thesis by simp
qed

subsection \<open>C10: the defaults of a feed without category or language\<close>

text \<open>
  C10. Every article appended while one feed is processed carries the name of that feed,
  the category \<^verbatim>\<open>other\<close> when the feed has no \<^verbatim>\<open>category\<close> key and the language
  \<^verbatim>\<open>en\<close> when it has no \<^verbatim>\<open>language\<close> key; and every article a run returns stems
  from such a feed of the run.
\<close>

theorem missing_keys_defaults:
  "(process_future cutoff keywords exclude_keywords (feed_config, outcome) st = Inr st' \<longrightarrow>
      (\<exists>new. articles st' = articles st @ new
         \<and> (\<forall>a \<in> set new.
               a_source a = fc_name feed_config
               \<and> (fc_category feed_config = None \<longrightarrow> a_category a = ascii ''other'')
               \<and> (fc_language feed_config = None \<longrightarrow> a_language a = ascii ''en''))))
   \<and> (collect_articles config target_date completed = Inr (arts, errs) \<longrightarrow>
        (\<forall>a \<in> set arts. \<exists>(fc, oc) \<in> set completed.
           a_source a = fc_name fc
           \<and> (fc_category fc = None \<longrightarrow> a_category a = ascii ''other'')
           \<and> (fc_language fc = None \<longrightarrow> a_language a = ascii ''en'')))"
proof (intro conjI impI)
  assume "process_future cutoff keywords exclude_keywords (feed_config, outcome) st = Inr st'"
  from process_future_cases [OF this] obtain new where
    n: "articles st' = articles st @ new"
    "\<forall>a \<in> set new. \<exists>e \<in> set (fst (snd (fetch_single_feed feed_config outcome))).
        accepted cutoff keywords exclude_keywords feed_config (fc_name feed_config) e a"
    by blast
  have "\<forall>a \<in> set new.
               a_source a = fc_name feed_config
               \<and> (fc_category feed_config = None \<longrightarrow> a_category a = ascii ''other'')
               \<and> (fc_language feed_config = None \<longrightarrow> a_language a = ascii ''en'')"
  proof
    fix a assume "a \<in> set new"
    with n(2) obtain e where
      "accepted cutoff keywords exclude_keywords feed_config (fc_name feed_config) e a"
      by blast
    then show "a_source a = fc_name feed_config
               \<and> (fc_category feed_config = None \<longrightarrow> a_category a = ascii ''other'')
               \<and> (fc_language feed_config = None \<longrightarrow> a_language a = ascii ''en'')"
      by (rule accepted_fields)
  qed
  with n(1) show "\<exists>new. articles st' = articles st @ new
         \<and> (\<forall>a \<in> set new.
               a_source a = fc_name feed_config
               \<and> (fc_category feed_config = None \<longrightarrow> a_category a = ascii ''other'')
               \<and> (fc_language feed_config = None \<longrightarrow> a_language a = ascii ''en''))"
    by blast
next
  assume "collect_articles config target_date completed = Inr (arts, errs)"
  from collect_articles_origin [OF this] obtain cutoff where
    o: "\<forall>a \<in> set arts. origin cutoff (getattr (cfg_keywords config) [])
          (getattr (cfg_exclude_keywords config) []) completed a"
    by blast
  show "\<forall>a \<in> set arts. \<exists>(fc, oc) \<in> set completed.
           a_source a = fc_name fc
           \<and> (fc_category fc = None \<longrightarrow> a_category a = ascii ''other'')
           \<and> (fc_language fc = None \<longrightarrow> a_language a = ascii ''en'')"
  proof
    fix a assume "a \<in> set arts"
    with o have "origin cutoff (getattr (cfg_keywords config) [])
          (getattr (cfg_exclude_keywords config) []) completed a" by blast
    then obtain fc oc e where f: "(fc, oc) \<in> set completed"
      "accepted cutoff (getattr (cfg_keywords config) [])
          (getattr (cfg_exclude_keywords config) []) fc (fc_name fc) e a"
      by (rule originD)
    from f(2) have "a_source a = fc_name fc
           \<and> (fc_category fc = None \<longrightarrow> a_category a = ascii ''other'')
           \<and> (fc_language fc = None \<longrightarrow> a_language a = ascii ''en'')"
      by (rule accepted_fields)
    then show "\<exists>(fc, oc) \<in> set completed.
           a_source a = fc_name fc
           \<and> (fc_category fc = None \<longrightarrow> a_category a = ascii ''other'')
           \<and> (fc_language fc = None \<longrightarrow> a_language a = ascii ''en'')"
      by (intro bexI [OF _ f(1)]) simp
  qed
qed

theorem missing_keys_defaults_witness:
  "fc_category feed_bare = None \<and> fc_language feed_bare = None
   \<and> process_future cutoff_noon [ascii ''GPT''] [] (feed_bare, Parsed False [] [entry_gpt])
        empty_state
      = Inr \<lparr>articles = [article_gpt (ascii ''Mirror'') (ascii ''other'')
                           (ascii ''https://openai.com/gpt5'')],
             errors = [], seen_urls = {ascii ''https://openai.com/gpt5''}\<rparr>
   \<and> collect_articles config_bare noon [(feed_bare, Parsed False [] [entry_gpt])]
      = Inr ([article_gpt (ascii ''Mirror'') (ascii ''other'')
                (ascii ''https://openai.com/gpt5'')], [])
   \<and> a_category (article_gpt (ascii ''Mirror'') (ascii ''other'')
                    (ascii ''https://openai.com/gpt5'')) = ascii ''other''
   \<and> a_language (article_gpt (ascii ''Mirror'') (ascii ''other'')
                    (ascii ''https://openai.com/gpt5'')) = ascii ''en''"
proof -
  let ?a = "article_gpt (ascii ''Mirror'') (ascii ''other'') (ascii ''https://openai.com/gpt5'')"
  let ?st = "\<lparr>articles = [?a], errors = [], seen_urls = {ascii ''https://openai.com/gpt5''}\<rparr>"
  have 1: "fc_category feed_bare = None" "fc_language feed_bare = None"
    by (simp_all add: feed_bare_def)
  have 2: "process_future cutoff_noon [ascii ''GPT''] [] (feed_bare, Parsed False [] [entry_gpt])
        empty_state = Inr ?st"
    by code_simp
  have 3: "collect_articles config_bare noon [(feed_bare, Parsed False [] [entry_gpt])]
      = Inr ([?a], [])"
    by code_simp
  from missing_keys_defaults [THEN conjunct1, THEN mp, OF 2] obtain new where
    n: "articles ?st = articles empty_state @ new"
       "\<forall>a \<in> set new. a_source a = fc_name feed_bare
            \<and> (fc_category feed_bare = None \<longrightarrow> a_category a = ascii ''other'')
            \<and> (fc_language feed_bare = None \<longrightarrow> a_language a = ascii ''en'')"
    by blast
  from n(1) have "new = [?a]" by (simp add: empty_state_def)
  with n(2) 1 have 4: "a_category ?a = ascii ''other''" "a_language ?a = ascii ''en''"
    by simp_all
  show ?thesis by (intro conjI 1 2 3 4)
qed

end
